theory Spec2Isabelle
  imports Main
begin

section \<open>Paths: the functions of Node's \<open>path\<close> module that GraphGenerator.js calls\<close>

text \<open>
  GraphGenerator.js runs on POSIX paths (its project root is \<open>/Users/...\<close>).  The
  functions below follow Node's \<open>path.posix\<close>: \<open>normalizeString\<close>, \<open>resolve\<close>,
  \<open>join\<close>, \<open>dirname\<close>, \<open>relative\<close> and \<open>extname\<close>.  A path is a \<open>string\<close>;
  \<open>process.cwd()\<close>, which \<open>path.resolve\<close> falls back to, is the \<open>cwd\<close> of the
  environment and is an absolute path.
\<close>

fun split_on :: "char \<Rightarrow> string \<Rightarrow> string list" where
  "split_on c [] = [[]]"
| "split_on c (x # xs) =
     (if x = c then [] # split_on c xs
      else (case split_on c xs of [] \<Rightarrow> [[x]] | w # ws \<Rightarrow> (x # w) # ws))"

fun join_with :: "string \<Rightarrow> string list \<Rightarrow> string" where
  "join_with s [] = []"
| "join_with s [w] = w"
| "join_with s (w # ws) = w @ s @ join_with s ws"

definition startsWith :: "string \<Rightarrow> string \<Rightarrow> bool" where
  "startsWith s pre = (take (length pre) s = pre)"

text \<open>
  \<open>normalizeString(path, allowAboveRoot)\<close>: empty segments and \<open>.\<close> are dropped,
  \<open>..\<close> removes the last kept segment; with nothing to remove it is kept only when
  \<open>allowAboveRoot\<close> holds.
\<close>

definition norm_step :: "bool \<Rightarrow> string list \<Rightarrow> string \<Rightarrow> string list" where
  "norm_step allowAboveRoot acc seg =
     (if seg = [] \<or> seg = ''.'' then acc
      else if seg = ''..'' then
        (if acc \<noteq> [] \<and> last acc \<noteq> ''..'' then butlast acc
         else if allowAboveRoot then acc @ [''..''] else acc)
      else acc @ [seg])"

definition normalizeSegments :: "bool \<Rightarrow> string \<Rightarrow> string list" where
  "normalizeSegments allowAboveRoot p = foldl (norm_step allowAboveRoot) [] (split_on CHR ''/'' p)"

definition normalizeString :: "string \<Rightarrow> bool \<Rightarrow> string" where
  "normalizeString p allowAboveRoot = join_with ''/'' (normalizeSegments allowAboveRoot p)"

text \<open>
  \<open>path.resolve(...args)\<close>: the arguments are read from the right until an absolute
  one is found, \<open>process.cwd()\<close> standing before the first; empty arguments are
  skipped.  \<open>resolve_loop\<close> takes the arguments right to left.
\<close>

fun resolve_loop :: "string \<Rightarrow> string list \<Rightarrow> string \<Rightarrow> string" where
  "resolve_loop wd [] acc = wd @ ''/'' @ acc"
| "resolve_loop wd (p # ps) acc =
     (if p = [] then resolve_loop wd ps acc
      else if hd p = CHR ''/'' then p @ ''/'' @ acc
      else resolve_loop wd ps (p @ ''/'' @ acc))"

definition resolvedSegments :: "string \<Rightarrow> string list \<Rightarrow> string list" where
  "resolvedSegments wd args = normalizeSegments False (resolve_loop wd (rev args) [])"

definition path_resolve :: "string \<Rightarrow> string list \<Rightarrow> string" where
  "path_resolve wd args = ''/'' @ join_with ''/'' (resolvedSegments wd args)"

text \<open>\<open>path.normalize\<close> and \<open>path.join\<close> of two arguments.\<close>

definition path_normalize :: "string \<Rightarrow> string" where
  "path_normalize p =
     (if p = [] then ''.''
      else
        (let isAbsolute = (hd p = CHR ''/'');
             trailingSeparator = (last p = CHR ''/'');
             q = normalizeString p (\<not> isAbsolute)
         in if q = [] then (if isAbsolute then ''/'' else if trailingSeparator then ''./'' else ''.'')
            else (if isAbsolute then ''/'' else []) @ q @ (if trailingSeparator then ''/'' else [])))"

definition path_join :: "string \<Rightarrow> string \<Rightarrow> string" where
  "path_join a b =
     (let joined = (if a = [] then b else if b = [] then a else a @ ''/'' @ b)
      in if joined = [] then ''.'' else path_normalize joined)"

text \<open>
  \<open>path.dirname\<close>: scanning from the right down to index 1, trailing slashes are
  skipped, then the last segment; the slash found there ends the result.
\<close>

definition path_dirname :: "string \<Rightarrow> string" where
  "path_dirname p =
     (case p of
        [] \<Rightarrow> ''.''
      | c # cs \<Rightarrow>
          (let rest = dropWhile (\<lambda>x. x \<noteq> CHR ''/'') (dropWhile (\<lambda>x. x = CHR ''/'') (rev cs))
           in if rest = [] then (if c = CHR ''/'' then ''/'' else ''.'')
              else if c = CHR ''/'' \<and> length rest = 1 then ''//''
              else c # rev (tl rest)))"

text \<open>
  \<open>path.relative(from, to)\<close>: both paths are resolved; the result climbs out of the
  segments of \<open>from\<close> that follow the common prefix and descends into the rest of
  \<open>to\<close>.
\<close>

fun common_prefix_length :: "string list \<Rightarrow> string list \<Rightarrow> nat" where
  "common_prefix_length (x # xs) (y # ys) = (if x = y then Suc (common_prefix_length xs ys) else 0)"
| "common_prefix_length _ _ = 0"

definition path_relative :: "string \<Rightarrow> string \<Rightarrow> string \<Rightarrow> string" where
  "path_relative wd from to =
     (let fs = resolvedSegments wd [from];
          ts = resolvedSegments wd [to];
          n = common_prefix_length fs ts
      in join_with ''/'' (replicate (length fs - n) ''..'' @ drop n ts))"

text \<open>
  \<open>path.extname\<close>: the part of the last segment from its last dot on; empty when the
  segment has no dot, starts with its only dot, or is \<open>..\<close>.
\<close>

definition path_basename :: "string \<Rightarrow> string" where
  "path_basename p =
     rev (takeWhile (\<lambda>x. x \<noteq> CHR ''/'') (dropWhile (\<lambda>x. x = CHR ''/'') (rev p)))"

definition path_extname :: "string \<Rightarrow> string" where
  "path_extname p =
     (let b = path_basename p;
          ext = rev (takeWhile (\<lambda>x. x \<noteq> CHR ''.'') (rev b))
      in if CHR ''.'' \<notin> set b \<or> length ext + 1 = length b \<or> b = ''..'' then []
         else CHR ''.'' # ext)"

text \<open>\<open>s.replace(/\\/g, '/')\<close> and \<open>s.replace('.', '')\<close> (the first dot only).\<close>

definition slashes :: "string \<Rightarrow> string" where
  "slashes s = map (\<lambda>c. if c = CHR 0x5C then CHR ''/'' else c) s"

fun remove_first_dot :: "string \<Rightarrow> string" where
  "remove_first_dot [] = []"
| "remove_first_dot (c # cs) = (if c = CHR ''.'' then cs else c # remove_first_dot cs)"

text \<open>The constant \<open>projectRoot\<close>: \<open>path.resolve(__dirname, '/Users/...')\<close> is its
  absolute second argument.\<close>

definition projectRoot :: string where
  "projectRoot = ''/Users/aneesh/grafana/packages/grafana-ui/src''"

definition fileExtensions :: "string list" where
  "fileExtensions = [''.js'', ''.jsx'', ''.ts'', ''.tsx'']"

text \<open>A segment that \<open>normalizeString\<close> keeps as it is.\<close>

definition plainSegment :: "string \<Rightarrow> bool" where
  "plainSegment s = (s \<noteq> [] \<and> s \<noteq> ''.'' \<and> s \<noteq> ''..'' \<and> CHR ''/'' \<notin> set s)"

section \<open>The syntax tree\<close>

text \<open>
  The Babel node types that the visitors of \<open>parseFile\<close> look at, each with the
  fields they read; every other node type is \<open>Other\<close>, with its type name and its
  children in traversal order.  \<open>ArrayPattern\<close> elements may be holes (\<open>null\<close>), a
  declarator's \<open>init\<close> and a function's \<open>id\<close> may be absent.  A function's \<open>id\<close>
  is kept as its name.  The node list of a \<open>CallExpression\<close> holds the children that
  follow the callee in traversal order (the arguments), that of a function node its
  parameters and its body.  An \<open>Identifier\<close> and an \<open>ImportDeclaration\<close> have no
  node below them that a visitor looks at.
\<close>

datatype imported = ImportedIdentifier string | ImportedStringLiteral string

datatype specifier =
    ImportSpecifier imported
  | ImportDefaultSpecifier
  | ImportNamespaceSpecifier

datatype node =
    Identifier string
  | ArrayPattern "node option list"
  | CallExpression node "node list"
  | ArrowFunctionExpression "node list"
  | FunctionExpression "string option" "node list"
  | FunctionDeclaration "string option" "node list"
  | VariableDeclarator node "node option"
  | ImportDeclaration string "specifier list"
  | Other string "node list"

text \<open>\<open>node.name\<close>: of the nodes that can stand as a callee or as the target of a
  binding, only an \<open>Identifier\<close> has a \<open>name\<close>; elsewhere it is \<open>undefined\<close>.\<close>

fun node_name :: "node \<Rightarrow> string option" where
  "node_name (Identifier n) = Some n"
| "node_name _ = None"

text \<open>
  \<open>traverse(ast, visitors)\<close> enters the nodes below the root depth first, parents
  before children, children in the order of their fields.  \<open>preorder\<close> lists a node
  and all nodes below it in that order.
\<close>

fun preorder :: "node \<Rightarrow> node list" where
  "preorder (Identifier n) = [Identifier n]"
| "preorder (ArrayPattern es) =
     ArrayPattern es # concat (map (\<lambda>e. case e of None \<Rightarrow> [] | Some x \<Rightarrow> preorder x) es)"
| "preorder (CallExpression callee args) =
     CallExpression callee args # preorder callee @ concat (map preorder args)"
| "preorder (ArrowFunctionExpression ks) =
     ArrowFunctionExpression ks # concat (map preorder ks)"
| "preorder (FunctionExpression i ks) = FunctionExpression i ks # concat (map preorder ks)"
| "preorder (FunctionDeclaration i ks) = FunctionDeclaration i ks # concat (map preorder ks)"
| "preorder (VariableDeclarator i init) =
     VariableDeclarator i init # preorder i @ (case init of None \<Rightarrow> [] | Some x \<Rightarrow> preorder x)"
| "preorder (ImportDeclaration src specs) = [ImportDeclaration src specs]"
| "preorder (Other t ks) = Other t ks # concat (map preorder ks)"

definition descendants :: "node \<Rightarrow> node list" where
  "descendants root = tl (preorder root)"

section \<open>The environment\<close>

text \<open>
  What GraphGenerator.js reads from outside: the working directory, \<open>fs.existsSync\<close>,
  \<open>fs.readFileSync\<close>, \<open>parser.parse\<close> and Babel's \<open>traverse\<close>.  Reading and
  parsing can throw.  So can \<open>traverse\<close>, on a tree that parsed: before it calls a
  visitor it collects the bindings of every scope of the program, and it throws a
  \<open>TypeError\<close> (\<open>Duplicate declaration\<close>) where two of them clash, as in
  \<open>import {a} from 'x'; declare const a: number\<close>.  \<open>scopeCrawl\<close> gives the exception
  that \<open>traverse\<close> throws for a tree, if any.
\<close>

datatype error = ReadError | SyntaxError | TypeError

record env =
  cwd :: string
  existsSync :: "string \<Rightarrow> bool"
  readFileSync :: "string \<Rightarrow> error + string"
  parse :: "string \<Rightarrow> error + node"
  scopeCrawl :: "node \<Rightarrow> error option"

section \<open>resolveImportPath\<close>

definition possibilities :: "string \<Rightarrow> string list" where
  "possibilities fullPath =
     [fullPath @ ''.js'',
      fullPath @ ''.jsx'',
      fullPath @ ''.ts'',
      fullPath @ ''.tsx'',
      path_join fullPath ''index.js'',
      path_join fullPath ''index.jsx'',
      path_join fullPath ''index.ts'',
      path_join fullPath ''index.tsx'']"

text \<open>The loop \<open>for (const p of possibilities) if (fs.existsSync(p)) return p\<close>,
  with \<open>return null\<close> after it.\<close>

fun first_existing :: "(string \<Rightarrow> bool) \<Rightarrow> string list \<Rightarrow> string option" where
  "first_existing ex [] = None"
| "first_existing ex (p # ps) = (if ex p then Some p else first_existing ex ps)"

definition baseDir :: "string \<Rightarrow> string \<Rightarrow> string" where
  "baseDir fromFile importPath =
     (if startsWith importPath ''.'' then path_dirname fromFile else projectRoot)"

definition fullPath :: "env \<Rightarrow> string \<Rightarrow> string \<Rightarrow> string" where
  "fullPath e fromFile importPath = path_resolve (cwd e) [baseDir fromFile importPath, importPath]"

definition resolveImportPath :: "env \<Rightarrow> string \<Rightarrow> string \<Rightarrow> string option" where
  "resolveImportPath e fromFile importPath =
     first_existing (existsSync e) (possibilities (fullPath e fromFile importPath))"

section \<open>parseFile\<close>

record metadata =
  id' :: string
  linesOfCode :: nat
  components :: "string list"
  usesState :: bool
  usesEffect :: bool
  usesHooks :: "string list"
  usesContext :: bool
  declaresRoutes :: bool
  stateVariables :: "string list"
  imports' :: "string list"
  fileType :: string

text \<open>\<open>/^[A-Z]/.test(name)\<close>.\<close>

definition upperFirst :: "string \<Rightarrow> bool" where
  "upperFirst s = (case s of [] \<Rightarrow> False | c # _ \<Rightarrow> c \<in> set ''ABCDEFGHIJKLMNOPQRSTUVWXYZ'')"

fun isReactComponent :: "node \<Rightarrow> bool" where
  "isReactComponent (FunctionDeclaration i ks) = (case i of None \<Rightarrow> False | Some n \<Rightarrow> upperFirst n)"
| "isReactComponent (FunctionExpression i ks) = (case i of None \<Rightarrow> False | Some n \<Rightarrow> upperFirst n)"
| "isReactComponent _ = False"

text \<open>The identity of a path: \<open>path.relative(projectRoot, p).replace(/\\/g, '/')\<close>.\<close>

definition relativePath :: "env \<Rightarrow> string \<Rightarrow> string" where
  "relativePath e p = slashes (path_relative (cwd e) projectRoot p)"

text \<open>The four visitors, each taking the metadata and returning it updated.\<close>

definition routeSpecifier :: "specifier \<Rightarrow> bool" where
  "routeSpecifier s =
     (case s of
        ImportSpecifier (ImportedIdentifier n) \<Rightarrow> n = ''Route'' \<or> n = ''Routes''
      | _ \<Rightarrow> False)"

definition visitImportDeclaration ::
  "env \<Rightarrow> string \<Rightarrow> string \<Rightarrow> specifier list \<Rightarrow> metadata \<Rightarrow> metadata" where
  "visitImportDeclaration e filePath importPath specs m =
     (let m1 = (case resolveImportPath e filePath importPath of
                  Some importFile \<Rightarrow> m\<lparr>imports' := imports' m @ [relativePath e importFile]\<rparr>
                | None \<Rightarrow> m)
      in if importPath = ''react-router-dom'' \<and> list_ex routeSpecifier specs
         then m1\<lparr>declaresRoutes := True\<rparr> else m1)"

definition visitFunctionDeclaration :: "node \<Rightarrow> metadata \<Rightarrow> metadata" where
  "visitFunctionDeclaration n m =
     (if isReactComponent n
      then (case n of FunctionDeclaration (Some name) ks \<Rightarrow> m\<lparr>components := components m @ [name]\<rparr>
                    | _ \<Rightarrow> m)
      else m)"

text \<open>The two tests of the \<open>VariableDeclarator\<close> visitor.\<close>

definition arrowComponent :: "node \<Rightarrow> node option \<Rightarrow> string option" where
  "arrowComponent i init =
     (case init of
        Some (ArrowFunctionExpression ks) \<Rightarrow>
          (case node_name i of
             Some name \<Rightarrow> if name \<noteq> [] \<and> upperFirst name then Some name else None
           | None \<Rightarrow> None)
      | _ \<Rightarrow> None)"

definition stateBinding :: "node \<Rightarrow> node option \<Rightarrow> string option" where
  "stateBinding i init =
     (case init of
        Some (CallExpression callee args) \<Rightarrow>
          (if node_name callee = Some ''useState'' then
             (case i of
                ArrayPattern (Some (Identifier stateVarName) # es) \<Rightarrow> Some stateVarName
              | _ \<Rightarrow> None)
           else None)
      | _ \<Rightarrow> None)"

definition visitVariableDeclarator :: "node \<Rightarrow> node option \<Rightarrow> metadata \<Rightarrow> metadata" where
  "visitVariableDeclarator i init m =
     (let m1 = (case arrowComponent i init of
                  Some name \<Rightarrow> m\<lparr>components := components m @ [name]\<rparr>
                | None \<Rightarrow> m)
      in case stateBinding i init of
           Some stateVarName \<Rightarrow>
             (let m2 = m1\<lparr>stateVariables := stateVariables m1 @ [stateVarName]\<rparr>;
                  m3 = (if ''useState'' \<notin> set (usesHooks m2)
                        then m2\<lparr>usesHooks := usesHooks m2 @ [''useState'']\<rparr> else m2)
              in m3\<lparr>usesState := True\<rparr>)
         | None \<Rightarrow> m1)"

definition visitCallExpression :: "node \<Rightarrow> metadata \<Rightarrow> metadata" where
  "visitCallExpression calleeNode m =
     (let callee = node_name calleeNode;
          m1 = (if callee = Some ''useState''
                then m\<lparr>usesState := True, usesHooks := usesHooks m @ [''useState'']\<rparr> else m);
          m2 = (if callee = Some ''useEffect''
                then m1\<lparr>usesEffect := True, usesHooks := usesHooks m1 @ [''useEffect'']\<rparr> else m1);
          m3 = (if callee = Some ''useContext''
                then (let m' = m2\<lparr>usesContext := True\<rparr>
                      in if ''useContext'' \<notin> set (usesHooks m')
                         then m'\<lparr>usesHooks := usesHooks m' @ [''useContext'']\<rparr> else m')
                else m2)
      in case callee of
           Some c \<Rightarrow>
             (if c \<noteq> [] \<and> startsWith c ''use'' \<and> c \<notin> set (usesHooks m3)
              then m3\<lparr>usesHooks := usesHooks m3 @ [c]\<rparr> else m3)
         | None \<Rightarrow> m3)"

fun visit :: "env \<Rightarrow> string \<Rightarrow> node \<Rightarrow> metadata \<Rightarrow> metadata" where
  "visit e filePath (ImportDeclaration src specs) m = visitImportDeclaration e filePath src specs m"
| "visit e filePath (FunctionDeclaration i ks) m = visitFunctionDeclaration (FunctionDeclaration i ks) m"
| "visit e filePath (VariableDeclarator i init) m = visitVariableDeclarator i init m"
| "visit e filePath (CallExpression callee args) m = visitCallExpression callee m"
| "visit e filePath _ m = m"

text \<open>The visitor calls of one traversal, in order.\<close>

definition visitNodes :: "env \<Rightarrow> string \<Rightarrow> node \<Rightarrow> metadata \<Rightarrow> metadata" where
  "visitNodes e filePath ast m = fold (visit e filePath) (descendants ast) m"

text \<open>\<open>traverse(ast, {...})\<close>: either it throws, and the metadata collected so far is
  lost with the call of \<open>parseFile\<close>, or every visitor call is made.\<close>

definition traverse :: "env \<Rightarrow> string \<Rightarrow> node \<Rightarrow> metadata \<Rightarrow> error + metadata" where
  "traverse e filePath ast m =
     (case scopeCrawl e ast of
        Some err \<Rightarrow> Inl err
      | None \<Rightarrow> Inr (visitNodes e filePath ast m))"

definition initialMetadata :: "env \<Rightarrow> string \<Rightarrow> string \<Rightarrow> metadata" where
  "initialMetadata e filePath code =
     \<lparr> id' = relativePath e filePath,
       linesOfCode = length (split_on CHR 0x0A code),
       components = [],
       usesState = False,
       usesEffect = False,
       usesHooks = [],
       usesContext = False,
       declaresRoutes = False,
       stateVariables = [],
       imports' = [],
       fileType = remove_first_dot (path_extname filePath) \<rparr>"

definition parseFile :: "env \<Rightarrow> string \<Rightarrow> error + metadata" where
  "parseFile e filePath =
     (case readFileSync e filePath of
        Inl err \<Rightarrow> Inl err
      | Inr code \<Rightarrow>
          (case parse e code of
             Inl err \<Rightarrow> Inl err
           | Inr ast \<Rightarrow> traverse e filePath ast (initialMetadata e filePath code)))"


section \<open>main\<close>

text \<open>
  The graph: \<open>nodes\<close> holds the file records and the state nodes in the order they
  are pushed, \<open>edges\<close> the edges; an edge's \<open>type\<close> is \<open>'state'\<close> or \<open>'imports'\<close>.
  \<open>fileMap\<close> is the object that maps a record's id to the record; the keys read
  from it are import targets, which end in one of the four extensions, so no property
  inherited from \<open>Object.prototype\<close> is ever read.
\<close>

datatype edge_type = State | Imports

record edge =
  source :: string
  target :: string
  type' :: edge_type

datatype graph_node =
    FileNode metadata
  | StateNode string string string

record graph =
  nodes :: "graph_node list"
  edges :: "edge list"

type_synonym fileMap = "string \<rightharpoonup> metadata"

text \<open>The fields \<open>id\<close>, \<open>label\<close> and \<open>parent\<close> of a state node, and the \<open>id\<close> of
  any node.\<close>

fun node_id :: "graph_node \<Rightarrow> string" where
  "node_id (FileNode m) = id' m"
| "node_id (StateNode i l p) = i"

definition stateNodeId :: "string \<Rightarrow> string \<Rightarrow> string" where
  "stateNodeId fileId stateVar = fileId @ ''::state::'' @ stateVar"

text \<open>The inner loop of the first pass: one state node and one \<open>state\<close> edge for each
  entry of \<open>stateVariables\<close>.\<close>

definition pushState :: "metadata \<Rightarrow> string \<Rightarrow> graph \<Rightarrow> graph" where
  "pushState m stateVar g =
     g\<lparr>nodes := nodes g @ [StateNode (stateNodeId (id' m) stateVar) stateVar (id' m)],
       edges := edges g @ [\<lparr>source = id' m, target = stateNodeId (id' m) stateVar, type' = State\<rparr>]\<rparr>"

text \<open>The first pass, \<open>for (const file of files)\<close>: a failure of \<open>parseFile\<close>
  (reading, parsing or traversing) leaves the loop and \<open>main\<close>.\<close>

fun pass1 :: "env \<Rightarrow> string list \<Rightarrow> graph \<times> fileMap \<Rightarrow> error + graph \<times> fileMap" where
  "pass1 e [] s = Inr s"
| "pass1 e (file # files) (g, fm) =
     (case parseFile e file of
        Inl err \<Rightarrow> Inl err
      | Inr m \<Rightarrow>
          (let g1 = g\<lparr>nodes := nodes g @ [FileNode m]\<rparr>;
               g2 = (if length (stateVariables m) > 0
                     then fold (pushState m) (stateVariables m) g1 else g1)
           in pass1 e files (g2, fm(id' m \<mapsto> m))))"

text \<open>The second pass, \<open>for (const node of graph.nodes)\<close>: a state node has no
  \<open>imports\<close> array.\<close>

definition pushImport :: "fileMap \<Rightarrow> string \<Rightarrow> string \<Rightarrow> graph \<Rightarrow> graph" where
  "pushImport fm src tgt g =
     (if fm tgt \<noteq> None
      then g\<lparr>edges := edges g @ [\<lparr>source = src, target = tgt, type' = Imports\<rparr>]\<rparr>
      else g)"

fun pass2_node :: "fileMap \<Rightarrow> graph_node \<Rightarrow> graph \<Rightarrow> graph" where
  "pass2_node fm (FileNode m) g = fold (pushImport fm (id' m)) (imports' m) g"
| "pass2_node fm (StateNode i l p) g = g"

definition pass2 :: "fileMap \<Rightarrow> graph \<Rightarrow> graph" where
  "pass2 fm g = fold (pass2_node fm) (nodes g) g"

text \<open>\<open>main\<close>, from the list of files that \<open>glob\<close> returns to the graph that is
  written out.\<close>

definition main :: "env \<Rightarrow> string list \<Rightarrow> error + graph" where
  "main e files =
     (case pass1 e files (\<lparr>nodes = [], edges = []\<rparr>, Map.empty) of
        Inl err \<Rightarrow> Inl err
      | Inr (g, fm) \<Rightarrow> Inr (pass2 fm g))"


section \<open>What the graph is specified to hold\<close>

text \<open>
  The recognition rules that the records are compared with, node by node.  A state
  binding: the left-hand side is a positional pattern whose first element is an
  identifier, the right-hand side a call of the identifier \<open>useState\<close>; the name
  recorded is the first identifier.
\<close>

fun stateBindingNames :: "node \<Rightarrow> string list" where
  "stateBindingNames (VariableDeclarator (ArrayPattern (Some (Identifier name) # es))
       (Some (CallExpression (Identifier u) args))) =
     (if u = ''useState'' then [name] else [])"
| "stateBindingNames _ = []"

text \<open>A component: a function declaration, or a binding of an identifier to an arrow
  function, whose name starts with an upper-case letter.\<close>

fun componentNames :: "node \<Rightarrow> string list" where
  "componentNames (FunctionDeclaration (Some name) ks) = (if upperFirst name then [name] else [])"
| "componentNames (VariableDeclarator (Identifier name) (Some (ArrowFunctionExpression ks))) =
     (if upperFirst name then [name] else [])"
| "componentNames _ = []"


definition stateBindings :: "node \<Rightarrow> string list" where
  "stateBindings ast = concat (map stateBindingNames (descendants ast))"

definition componentDeclarations :: "node \<Rightarrow> string list" where
  "componentDeclarations ast = concat (map componentNames (descendants ast))"



text \<open>The nodes and edges that one file record contributes.\<close>

definition stateNodesOf :: "metadata \<Rightarrow> graph_node list" where
  "stateNodesOf m = map (\<lambda>v. StateNode (stateNodeId (id' m) v) v (id' m)) (stateVariables m)"

definition stateEdgesOf :: "metadata \<Rightarrow> edge list" where
  "stateEdgesOf m =
     map (\<lambda>v. \<lparr>source = id' m, target = stateNodeId (id' m) v, type' = State\<rparr>) (stateVariables m)"

definition importEdgesOf :: "(string \<Rightarrow> bool) \<Rightarrow> metadata \<Rightarrow> edge list" where
  "importEdgesOf known m =
     map (\<lambda>t. \<lparr>source = id' m, target = t, type' = Imports\<rparr>) (filter known (imports' m))"

fun fileRecord :: "graph_node \<Rightarrow> metadata list" where
  "fileRecord (FileNode m) = [m]"
| "fileRecord (StateNode i l p) = []"

definition fileRecords :: "graph \<Rightarrow> metadata list" where
  "fileRecords g = concat (map fileRecord (nodes g))"


text \<open>The quick-lookup flags agree with the hook names.\<close>

definition flagsAgree :: "metadata \<Rightarrow> bool" where
  "flagsAgree m =
     ((usesState m = (''useState'' \<in> set (usesHooks m))) \<and>
      (usesEffect m = (''useEffect'' \<in> set (usesHooks m))) \<and>
      (usesContext m = (''useContext'' \<in> set (usesHooks m))))"



definition fileMapOf :: "metadata list \<Rightarrow> fileMap \<Rightarrow> fileMap" where
  "fileMapOf ms fm = fold (\<lambda>m fm. fm(id' m \<mapsto> m)) ms fm"

text \<open>The identities one file record contributes to the graph, the part of an
  identity after its last colon, and \<open>s.endsWith(suffix)\<close>.\<close>

definition idsOf :: "metadata \<Rightarrow> string list" where
  "idsOf m = id' m # map (stateNodeId (id' m)) (stateVariables m)"

definition afterColon :: "string \<Rightarrow> string" where
  "afterColon s = rev (takeWhile (\<lambda>c. c \<noteq> CHR '':'') (rev s))"

definition endsWith :: "string \<Rightarrow> string \<Rightarrow> bool" where
  "endsWith s suffix = (length suffix \<le> length s \<and> drop (length s - length suffix) s = suffix)"

section \<open>A sample project\<close>

text \<open>
  Source texts with the trees Babel builds for them, and a project made of them under
  \<open>projectRoot\<close>: \<open>a.ts\<close> imports \<open>./b\<close> (present), \<open>./missing\<close> and
  \<open>react\<close> (absent); \<open>broken.js\<close> does not parse; \<open>dup.ts\<close> parses and its
  traversal throws.
\<close>

definition code_a :: string where
  "code_a = ''import { b } from './b'; import { c } from './missing'; import React from 'react' ''"

definition ast_a :: node where
  "ast_a = Other ''File'' [Other ''Program''
     [ImportDeclaration ''./b'' [ImportSpecifier (ImportedIdentifier ''b'')],
      ImportDeclaration ''./missing'' [ImportSpecifier (ImportedIdentifier ''c'')],
      ImportDeclaration ''react'' [ImportDefaultSpecifier]]]"

definition code_b :: string where
  "code_b = ''export const b = 1''"

definition ast_b :: node where
  "ast_b = Other ''File'' [Other ''Program''
     [Other ''ExportNamedDeclaration'' [Other ''VariableDeclaration''
        [VariableDeclarator (Identifier ''b'') (Some (Other ''NumericLiteral'' []))]]]]"

definition code_counter :: string where
  "code_counter = ''const [count, setCount] = useState(0)''"

definition ast_counter :: node where
  "ast_counter = Other ''File'' [Other ''Program'' [Other ''VariableDeclaration''
     [VariableDeclarator
        (ArrayPattern [Some (Identifier ''count''), Some (Identifier ''setCount'')])
        (Some (CallExpression (Identifier ''useState'') [Other ''NumericLiteral'' []]))]]]"

definition code_single :: string where
  "code_single = ''const [count] = useState(0)''"

definition ast_single :: node where
  "ast_single = Other ''File'' [Other ''Program'' [Other ''VariableDeclaration''
     [VariableDeclarator
        (ArrayPattern [Some (Identifier ''count'')])
        (Some (CallExpression (Identifier ''useState'') [Other ''NumericLiteral'' []]))]]]"

definition code_header :: string where
  "code_header = ''function Header(){} function helper(){}''"

definition ast_header :: node where
  "ast_header = Other ''File'' [Other ''Program''
     [FunctionDeclaration (Some ''Header'') [Other ''BlockStatement'' []],
      FunctionDeclaration (Some ''helper'') [Other ''BlockStatement'' []]]]"

definition code_foo :: string where
  "code_foo = ''const Foo = function(){}''"

definition ast_foo :: node where
  "ast_foo = Other ''File'' [Other ''Program'' [Other ''VariableDeclaration''
     [VariableDeclarator (Identifier ''Foo'')
        (Some (FunctionExpression None [Other ''BlockStatement'' []]))]]]"

definition code_panels :: string where
  "code_panels = ''const A = () => { const [open, setOpen] = useState(false) }; const B = () => { const [open, setOpen] = useState(true) }''"

definition openBinding :: node where
  "openBinding = Other ''VariableDeclaration''
     [VariableDeclarator
        (ArrayPattern [Some (Identifier ''open''), Some (Identifier ''setOpen'')])
        (Some (CallExpression (Identifier ''useState'') [Other ''BooleanLiteral'' []]))]"

definition ast_panels :: node where
  "ast_panels = Other ''File'' [Other ''Program''
     [Other ''VariableDeclaration''
        [VariableDeclarator (Identifier ''A'')
           (Some (ArrowFunctionExpression [Other ''BlockStatement'' [openBinding]]))],
      Other ''VariableDeclaration''
        [VariableDeclarator (Identifier ''B'')
           (Some (ArrowFunctionExpression [Other ''BlockStatement'' [openBinding]]))]]]"

definition code_effects :: string where
  "code_effects = ''useEffect(f); useEffect(g)''"

definition ast_effects :: node where
  "ast_effects = Other ''File'' [Other ''Program''
     [Other ''ExpressionStatement'' [CallExpression (Identifier ''useEffect'') [Identifier ''f'']],
      Other ''ExpressionStatement'' [CallExpression (Identifier ''useEffect'') [Identifier ''g'']]]]"

definition code_broken :: string where
  "code_broken = ''function (''"

definition code_dup :: string where
  "code_dup = ''import {a} from 'x'; declare const a: number''"

definition ast_dup :: node where
  "ast_dup = Other ''File'' [Other ''Program''
     [ImportDeclaration ''x'' [ImportSpecifier (ImportedIdentifier ''a'')],
      Other ''VariableDeclaration'' [VariableDeclarator (Identifier ''a'') None]]]"

definition sampleSources :: "(string \<times> string \<times> (error + node)) list" where
  "sampleSources =
     [(''/a.ts'', code_a, Inr ast_a),
      (''/b.ts'', code_b, Inr ast_b),
      (''/counter.tsx'', code_counter, Inr ast_counter),
      (''/single.tsx'', code_single, Inr ast_single),
      (''/header.tsx'', code_header, Inr ast_header),
      (''/foo.jsx'', code_foo, Inr ast_foo),
      (''/panels.tsx'', code_panels, Inr ast_panels),
      (''/effects.tsx'', code_effects, Inr ast_effects),
      (''/broken.js'', code_broken, Inl SyntaxError),
      (''/dup.ts'', code_dup, Inr ast_dup)]"

definition inRoot :: "string \<Rightarrow> string" where
  "inRoot name = projectRoot @ name"

definition sampleEnv :: env where
  "sampleEnv =
     \<lparr> cwd = ''/work'',
       existsSync = (\<lambda>p. p \<in> set (map (\<lambda>(name, code, tree). inRoot name) sampleSources)),
       readFileSync =
         (\<lambda>p. case map_of (map (\<lambda>(name, code, tree). (inRoot name, code)) sampleSources) p of
                 Some code \<Rightarrow> Inr code
               | None \<Rightarrow> Inl ReadError),
       parse =
         (\<lambda>c. case map_of (map (\<lambda>(name, code, tree). (code, tree)) sampleSources) c of
                 Some tree \<Rightarrow> tree
               | None \<Rightarrow> Inl SyntaxError),
       scopeCrawl = (\<lambda>tree. if tree = ast_dup then Some TypeError else None) \<rparr>"


text \<open>The graph of \<open>a.ts\<close>, \<open>b.ts\<close> and \<open>counter.tsx\<close>, and a second
  environment that has one more file and reads none.\<close>

definition sampleGraph :: graph where
  "sampleGraph =
     \<lparr>nodes =
        [FileNode
           \<lparr>id' = ''a.ts'', linesOfCode = 1, components = [], usesState = False,
            usesEffect = False, usesHooks = [], usesContext = False, declaresRoutes = False,
            stateVariables = [], imports' = [''b.ts''], fileType = ''ts''\<rparr>,
         FileNode
           \<lparr>id' = ''b.ts'', linesOfCode = 1, components = [], usesState = False,
            usesEffect = False, usesHooks = [], usesContext = False, declaresRoutes = False,
            stateVariables = [], imports' = [], fileType = ''ts''\<rparr>,
         FileNode
           \<lparr>id' = ''counter.tsx'', linesOfCode = 1, components = [], usesState = True,
            usesEffect = False, usesHooks = [''useState'', ''useState''], usesContext = False,
            declaresRoutes = False, stateVariables = [''count''], imports' = [],
            fileType = ''tsx''\<rparr>,
         StateNode ''counter.tsx::state::count'' ''count'' ''counter.tsx''],
      edges =
        [\<lparr>source = ''counter.tsx'', target = ''counter.tsx::state::count'', type' = State\<rparr>,
         \<lparr>source = ''a.ts'', target = ''b.ts'', type' = Imports\<rparr>]\<rparr>"

text \<open>Two files of one directory tree whose names differ in a backslash: \<open>lib/b.ts\<close>
  below the root, and the file of the root itself whose name is \<open>lib\<close>, a backslash
  and \<open>b.ts\<close>.\<close>

definition backslashName :: string where
  "backslashName = ''/lib'' @ [CHR 0x5C] @ ''b.ts''"

definition backslashEnv :: env where
  "backslashEnv =
     \<lparr> cwd = ''/work'',
       existsSync = (\<lambda>p. p = inRoot ''/lib/b.ts'' \<or> p = inRoot backslashName),
       readFileSync = (\<lambda>p. if p = inRoot ''/lib/b.ts'' \<or> p = inRoot backslashName
                           then Inr code_b else Inl ReadError),
       parse = (\<lambda>c. if c = code_b then Inr ast_b else Inl SyntaxError),
       scopeCrawl = (\<lambda>tree. None) \<rparr>"

definition otherEnv :: env where
  "otherEnv =
     sampleEnv\<lparr>existsSync := (\<lambda>p. existsSync sampleEnv p \<or> p = ''/elsewhere.js''),
               readFileSync := (\<lambda>p. Inl ReadError)\<rparr>"

section \<open>Joining a name to a resolved path\<close>

lemma split_on_nonempty: "split_on c s \<noteq> []"
  by (induction s) (auto split: list.splits)

lemma split_on_no_sep: "w \<in> set (split_on c s) \<Longrightarrow> c \<notin> set w"
proof (induction s arbitrary: w)
  case Nil
  then show ?case by simp
next
  case (Cons x xs)
  show ?case
  proof (cases "x = c")
    case True
    with Cons show ?thesis by auto
  next
    case False
    obtain v vs where vs: "split_on c xs = v # vs"
      using split_on_nonempty [of c xs] by (cases "split_on c xs") auto
    with False Cons.prems have "w = x # v \<or> w \<in> set vs" by simp
    then show ?thesis
    proof
      assume "w = x # v"
      moreover have "c \<notin> set v" using Cons.IH [of v] vs by simp
      ultimately show ?thesis using False by auto
    next
      assume "w \<in> set vs"
      then show ?thesis using Cons.IH [of w] vs by simp
    qed
  qed
qed

lemma split_on_append: "c \<notin> set w \<Longrightarrow> split_on c (w @ c # rest) = w # split_on c rest"
  by (induction w) auto

lemma split_on_plain: "c \<notin> set w \<Longrightarrow> split_on c w = [w]"
  by (induction w) auto

lemma split_on_join:
  "ws \<noteq> [] \<Longrightarrow> \<forall>w\<in>set ws. c \<notin> set w \<Longrightarrow> split_on c (join_with [c] ws) = ws"
proof (induction "[c]" ws rule: join_with.induct)
  case 1
  then show ?case by simp
next
  case (2 w)
  then show ?case by (simp add: split_on_plain)
next
  case (3 w v ws)
  then show ?case by (simp add: split_on_append)
qed

lemma join_with_snoc: "ws \<noteq> [] \<Longrightarrow> join_with s (ws @ [n]) = join_with s ws @ s @ n"
  by (induction s ws rule: join_with.induct) auto

lemma join_with_nonempty: "ws \<noteq> [] \<Longrightarrow> \<forall>w\<in>set ws. w \<noteq> [] \<Longrightarrow> join_with s ws \<noteq> []"
  by (induction s ws rule: join_with.induct) auto

lemma norm_step_plain:
  "\<forall>s\<in>set acc. plainSegment s \<Longrightarrow> CHR ''/'' \<notin> set seg \<Longrightarrow>
   \<forall>s\<in>set (norm_step False acc seg). plainSegment s"
  by (auto simp: norm_step_def plainSegment_def dest: in_set_butlastD)

lemma foldl_norm_step_plain:
  "\<forall>s\<in>set acc. plainSegment s \<Longrightarrow> \<forall>w\<in>set ws. CHR ''/'' \<notin> set w \<Longrightarrow>
   \<forall>s\<in>set (foldl (norm_step False) acc ws). plainSegment s"
proof (induction ws arbitrary: acc)
  case Nil
  then show ?case by simp
next
  case (Cons w ws)
  have "\<forall>s\<in>set (norm_step False acc w). plainSegment s"
    using Cons.prems by (intro norm_step_plain) auto
  then show ?case using Cons.IH [of "norm_step False acc w"] Cons.prems by simp
qed

lemma resolvedSegments_plain: "\<forall>s\<in>set (resolvedSegments wd args). plainSegment s"
  unfolding resolvedSegments_def normalizeSegments_def
  by (rule foldl_norm_step_plain) (auto dest: split_on_no_sep)

lemma foldl_norm_step_keep:
  "\<forall>s\<in>set ws. plainSegment s \<Longrightarrow> foldl (norm_step b) acc ws = acc @ ws"
  by (induction ws arbitrary: acc) (auto simp: norm_step_def plainSegment_def)

lemma path_join_plain:
  assumes "\<forall>s\<in>set segs. plainSegment s" and "plainSegment name"
  shows "path_join (''/'' @ join_with ''/'' segs) name =
     (if segs = [] then ''/'' @ name else ''/'' @ join_with ''/'' segs @ ''/'' @ name)"
proof -
  have name: "name \<noteq> []" "CHR ''/'' \<notin> set name"
    using assms(2) by (auto simp: plainSegment_def)
  then have lastn: "last name \<noteq> CHR ''/''"
    by (metis last_in_set)
  have all: "\<forall>s\<in>set (segs @ [name]). plainSegment s"
    using assms by simp
  then have nosep: "\<forall>w\<in>set (segs @ [name]). CHR ''/'' \<notin> set w"
    by (auto simp: plainSegment_def)
  have ne: "join_with ''/'' (segs @ [name]) \<noteq> []"
    using all by (intro join_with_nonempty) (auto simp: plainSegment_def)
  let ?joined = "(''/'' @ join_with ''/'' segs) @ ''/'' @ name"
  have keep: "foldl (norm_step False) [] (segs @ [name]) = segs @ [name]"
    using foldl_norm_step_keep [OF all, of False "[]"] by simp
  have segments: "normalizeSegments False ?joined = segs @ [name]"
  proof (cases "segs = []")
    case True
    then have "split_on CHR ''/'' ?joined = [[], [], name]"
      using name by (simp add: split_on_plain)
    then show ?thesis
      unfolding normalizeSegments_def using True keep by (simp add: norm_step_def)
  next
    case False
    then have "?joined = ''/'' @ join_with ''/'' (segs @ [name])"
      by (simp add: join_with_snoc)
    then have "split_on CHR ''/'' ?joined = [] # segs @ [name]"
      using split_on_join [of "segs @ [name]" "CHR ''/''"] nosep by simp
    then show ?thesis
      unfolding normalizeSegments_def using keep by (simp add: norm_step_def)
  qed
  have "path_normalize ?joined = ''/'' @ join_with ''/'' (segs @ [name])"
    using segments ne lastn name by (simp add: path_normalize_def normalizeString_def Let_def)
  moreover have "path_join (''/'' @ join_with ''/'' segs) name = path_normalize ?joined"
    using name by (simp add: path_join_def)
  ultimately show ?thesis
    by (cases "segs = []") (simp_all add: join_with_snoc)
qed

lemma path_resolve_root: "(path_resolve wd args = ''/'') = (resolvedSegments wd args = [])"
proof
  assume "path_resolve wd args = ''/''"
  then have "join_with ''/'' (resolvedSegments wd args) = []"
    by (simp add: path_resolve_def)
  then show "resolvedSegments wd args = []"
    using join_with_nonempty [of "resolvedSegments wd args" "''/''"] resolvedSegments_plain [of wd args]
    by (auto simp: plainSegment_def)
next
  assume "resolvedSegments wd args = []"
  then show "path_resolve wd args = ''/''" by (simp add: path_resolve_def)
qed

lemma path_join_resolved:
  assumes "plainSegment name"
  shows "path_join (path_resolve wd args) name =
     (if path_resolve wd args = ''/'' then ''/'' @ name else path_resolve wd args @ ''/'' @ name)"
  unfolding path_resolve_root
  using path_join_plain [OF resolvedSegments_plain assms, of wd args]
  by (simp add: path_resolve_def)

section \<open>The traversal, field by field\<close>

lemma stateBinding_names:
  "stateBindingNames (VariableDeclarator i init) =
     (case stateBinding i init of Some v \<Rightarrow> [v] | None \<Rightarrow> [])"
  by (cases "VariableDeclarator i init" rule: stateBindingNames.cases)
    (auto simp: stateBinding_def split: option.splits node.splits)

lemma visit_stateVariables:
  "stateVariables (visit e fp n m) = stateVariables m @ stateBindingNames n"
proof (cases n)
  case (VariableDeclarator i init)
  then show ?thesis
    by (simp add: stateBinding_names visitVariableDeclarator_def Let_def split: option.splits)
next
  case (ImportDeclaration src specs)
  then show ?thesis
    by (simp add: visitImportDeclaration_def Let_def split: option.splits)
next
  case (FunctionDeclaration i ks)
  then show ?thesis
    by (simp add: visitFunctionDeclaration_def split: option.splits)
next
  case (CallExpression c args)
  then show ?thesis
    by (simp add: visitCallExpression_def Let_def split: option.splits)
qed simp_all

lemma upperFirst_nonempty: "upperFirst s \<Longrightarrow> s \<noteq> []"
  by (auto simp: upperFirst_def)

lemma arrowComponent_names:
  "componentNames (VariableDeclarator i init) =
     (case arrowComponent i init of Some v \<Rightarrow> [v] | None \<Rightarrow> [])"
  by (cases "VariableDeclarator i init" rule: componentNames.cases)
    (auto simp: arrowComponent_def dest: upperFirst_nonempty split: option.splits node.splits)

lemma visit_components:
  "components (visit e fp n m) = components m @ componentNames n"
proof (cases n)
  case (VariableDeclarator i init)
  then show ?thesis
    by (simp add: arrowComponent_names visitVariableDeclarator_def Let_def split: option.splits)
next
  case (ImportDeclaration src specs)
  then show ?thesis
    by (simp add: visitImportDeclaration_def Let_def split: option.splits)
next
  case (FunctionDeclaration i ks)
  then show ?thesis
    by (simp add: visitFunctionDeclaration_def split: option.splits)
next
  case (CallExpression c args)
  then show ?thesis
    by (simp add: visitCallExpression_def Let_def split: option.splits)
qed simp_all


lemma visit_id: "id' (visit e fp n m) = id' m"
proof (cases n)
  case (VariableDeclarator i init)
  then show ?thesis
    by (simp add: visitVariableDeclarator_def Let_def split: option.splits)
next
  case (ImportDeclaration src specs)
  then show ?thesis
    by (simp add: visitImportDeclaration_def Let_def split: option.splits)
next
  case (FunctionDeclaration i ks)
  then show ?thesis
    by (simp add: visitFunctionDeclaration_def split: option.splits)
next
  case (CallExpression c args)
  then show ?thesis
    by (simp add: visitCallExpression_def Let_def split: option.splits)
qed simp_all

lemma fold_visit_stateVariables:
  "stateVariables (fold (visit e fp) ns m) = stateVariables m @ concat (map stateBindingNames ns)"
  by (induction ns arbitrary: m) (simp_all add: visit_stateVariables)

lemma fold_visit_components:
  "components (fold (visit e fp) ns m) = components m @ concat (map componentNames ns)"
  by (induction ns arbitrary: m) (simp_all add: visit_components)


lemma fold_visit_id: "id' (fold (visit e fp) ns m) = id' m"
  by (induction ns arbitrary: m) (simp_all add: visit_id)


lemma visit_flagsAgree: "flagsAgree m \<Longrightarrow> flagsAgree (visit e fp n m)"
proof (cases n)
  case (VariableDeclarator i init)
  then show "flagsAgree m \<Longrightarrow> ?thesis"
    by (auto simp: flagsAgree_def visitVariableDeclarator_def Let_def split: option.splits)
next
  case (ImportDeclaration src specs)
  then show "flagsAgree m \<Longrightarrow> ?thesis"
    by (auto simp: flagsAgree_def visitImportDeclaration_def Let_def split: option.splits)
next
  case (FunctionDeclaration i ks)
  then show "flagsAgree m \<Longrightarrow> ?thesis"
    by (auto simp: flagsAgree_def visitFunctionDeclaration_def split: option.splits)
next
  case (CallExpression c args)
  then show "flagsAgree m \<Longrightarrow> ?thesis"
    by (auto simp: flagsAgree_def visitCallExpression_def Let_def split: option.splits)
qed simp_all

lemma fold_visit_flagsAgree: "flagsAgree m \<Longrightarrow> flagsAgree (fold (visit e fp) ns m)"
  by (induction ns arbitrary: m) (simp_all add: visit_flagsAgree)

lemma fold_pushState:
  "fold (pushState m) vs g =
     g\<lparr>nodes := nodes g @ map (\<lambda>v. StateNode (stateNodeId (id' m) v) v (id' m)) vs,
       edges := edges g @ map (\<lambda>v. \<lparr>source = id' m, target = stateNodeId (id' m) v, type' = State\<rparr>) vs\<rparr>"
  by (induction vs arbitrary: g) (simp_all add: pushState_def)

lemma fileMapOf_known: "(fileMapOf ms fm t \<noteq> None) = (fm t \<noteq> None \<or> t \<in> set (map id' ms))"
  unfolding fileMapOf_def by (induction ms arbitrary: fm) auto

lemma pass1_Inr:
  "list_all2 (\<lambda>f m. parseFile e f = Inr m) files ms \<Longrightarrow>
   pass1 e files (g, fm) =
     Inr (g\<lparr>nodes := nodes g @ concat (map (\<lambda>m. FileNode m # stateNodesOf m) ms),
            edges := edges g @ concat (map stateEdgesOf ms)\<rparr>,
          fileMapOf ms fm)"
proof (induction files ms arbitrary: g fm rule: list_all2_induct)
  case Nil
  then show ?case by (simp add: fileMapOf_def)
next
  case (Cons f files m ms)
  then show ?case
    by (simp add: fold_pushState stateNodesOf_def stateEdgesOf_def fileMapOf_def Let_def)
qed

lemma fold_pushImport:
  "fold (pushImport fm src) ts g =
     g\<lparr>edges := edges g @ map (\<lambda>t. \<lparr>source = src, target = t, type' = Imports\<rparr>)
                           (filter (\<lambda>t. fm t \<noteq> None) ts)\<rparr>"
  by (induction ts arbitrary: g) (simp_all add: pushImport_def)

lemma fold_pass2_node:
  "fold (pass2_node fm) ns g =
     g\<lparr>edges := edges g @ concat (map (importEdgesOf (\<lambda>t. fm t \<noteq> None)) (concat (map fileRecord ns)))\<rparr>"
proof (induction ns arbitrary: g)
  case Nil
  then show ?case by simp
next
  case (Cons n ns)
  then show ?case by (cases n) (simp_all add: fold_pushImport importEdgesOf_def)
qed

lemma fileRecord_nodes:
  "concat (map fileRecord (concat (map (\<lambda>m. FileNode m # stateNodesOf m) ms))) = ms"
  by (induction ms) (simp_all add: stateNodesOf_def comp_def)

lemma main_graph:
  assumes "list_all2 (\<lambda>f m. parseFile e f = Inr m) files ms"
  shows "main e files =
     Inr \<lparr>nodes = concat (map (\<lambda>m. FileNode m # stateNodesOf m) ms),
          edges = concat (map stateEdgesOf ms) @
                  concat (map (importEdgesOf (\<lambda>t. t \<in> set (map id' ms))) ms)\<rparr>"
proof -
  have known: "(\<lambda>t. \<exists>y. fileMapOf ms Map.empty t = Some y) = (\<lambda>t. t \<in> set (map id' ms))"
    using fileMapOf_known [of ms Map.empty] by (intro ext) (simp del: set_map)
  have "main e files =
     Inr (pass2 (fileMapOf ms Map.empty)
       \<lparr>nodes = concat (map (\<lambda>m. FileNode m # stateNodesOf m) ms),
        edges = concat (map stateEdgesOf ms)\<rparr>)"
    using pass1_Inr [OF assms, of "\<lparr>nodes = [], edges = []\<rparr>" Map.empty]
    by (simp add: main_def)
  then show ?thesis
    by (simp add: pass2_def fold_pass2_node known fileRecord_nodes del: set_map)
qed

lemma parseFile_Inr:
  "readFileSync e f = Inr code \<Longrightarrow> parse e code = Inr ast \<Longrightarrow> scopeCrawl e ast = None \<Longrightarrow>
   parseFile e f = Inr (visitNodes e f ast (initialMetadata e f code))"
  by (simp add: parseFile_def traverse_def)

lemma parseFile_InrD:
  "parseFile e f = Inr m \<Longrightarrow>
   \<exists>code ast. readFileSync e f = Inr code \<and> parse e code = Inr ast \<and>
     scopeCrawl e ast = None \<and> m = visitNodes e f ast (initialMetadata e f code)"
  by (auto simp: parseFile_def traverse_def split: sum.splits option.splits)

lemma parseFile_record:
  "parseFile e f = Inr m \<Longrightarrow> readFileSync e f = Inr code \<Longrightarrow> parse e code = Inr ast \<Longrightarrow>
   m = visitNodes e f ast (initialMetadata e f code)"
  by (auto simp: parseFile_def traverse_def split: sum.splits option.splits)

lemma parseFile_Inl_iff:
  "(parseFile e f = Inl err) =
   (readFileSync e f = Inl err \<or>
    (\<exists>code. readFileSync e f = Inr code \<and>
       (parse e code = Inl err \<or> (\<exists>ast. parse e code = Inr ast \<and> scopeCrawl e ast = Some err))))"
  by (auto simp: parseFile_def traverse_def split: sum.splits option.splits)

lemma visitNodes_stateVariables:
  "stateVariables (visitNodes e f ast (initialMetadata e f code)) = stateBindings ast"
  by (simp add: visitNodes_def fold_visit_stateVariables stateBindings_def initialMetadata_def)

lemma visitNodes_components:
  "components (visitNodes e f ast (initialMetadata e f code)) = componentDeclarations ast"
  by (simp add: visitNodes_def fold_visit_components componentDeclarations_def initialMetadata_def)


lemma visitNodes_id: "id' (visitNodes e f ast (initialMetadata e f code)) = relativePath e f"
  by (simp add: visitNodes_def fold_visit_id initialMetadata_def)

lemma initial_flagsAgree: "flagsAgree (initialMetadata e f code)"
  by (simp add: flagsAgree_def initialMetadata_def)

lemma visitNodes_flagsAgree: "flagsAgree (visitNodes e f ast (initialMetadata e f code))"
  unfolding visitNodes_def by (rule fold_visit_flagsAgree) (rule initial_flagsAgree)

lemma visit_usesState:
  "usesState m \<or> stateBindingNames n \<noteq> [] \<Longrightarrow> usesState (visit e fp n m)"
proof (cases n)
  case (VariableDeclarator i init)
  then show "usesState m \<or> stateBindingNames n \<noteq> [] \<Longrightarrow> ?thesis"
    by (auto simp: stateBinding_names visitVariableDeclarator_def Let_def split: option.splits)
next
  case (ImportDeclaration src specs)
  then show "usesState m \<or> stateBindingNames n \<noteq> [] \<Longrightarrow> ?thesis"
    by (auto simp: visitImportDeclaration_def Let_def split: option.splits)
next
  case (FunctionDeclaration i ks)
  then show "usesState m \<or> stateBindingNames n \<noteq> [] \<Longrightarrow> ?thesis"
    by (auto simp: visitFunctionDeclaration_def split: option.splits)
next
  case (CallExpression c args)
  then show "usesState m \<or> stateBindingNames n \<noteq> [] \<Longrightarrow> ?thesis"
    by (auto simp: visitCallExpression_def Let_def split: option.splits)
qed simp_all

lemma fold_visit_usesState:
  "usesState m \<or> concat (map stateBindingNames ns) \<noteq> [] \<Longrightarrow> usesState (fold (visit e fp) ns m)"
proof (induction ns arbitrary: m)
  case Nil
  then show ?case by simp
next
  case (Cons n ns)
  show ?case
  proof (cases "usesState m \<or> stateBindingNames n \<noteq> []")
    case True
    then have "usesState (visit e fp n m)" by (rule visit_usesState)
    then show ?thesis using Cons.IH [of "visit e fp n m"] by simp
  next
    case False
    with Cons.prems have "concat (map stateBindingNames ns) \<noteq> []" by simp
    then show ?thesis using Cons.IH [of "visit e fp n m"] by simp
  qed
qed

lemma visitNodes_usesState:
  "stateBindings ast \<noteq> [] \<Longrightarrow> usesState (visitNodes e f ast (initialMetadata e f code))"
  by (simp add: visitNodes_def stateBindings_def fold_visit_usesState)

lemma first_existing_find: "first_existing ex ps = List.find ex ps"
  by (induction ps) simp_all

lemma pass1_Inl_iff:
  "(pass1 e files s = Inl err) =
   (\<exists>pre f post. files = pre @ f # post \<and> (\<forall>p\<in>set pre. \<exists>m. parseFile e p = Inr m) \<and>
      parseFile e f = Inl err)"
proof (induction files arbitrary: s)
  case Nil
  then show ?case by simp
next
  case (Cons x files)
  obtain g fm where s: "s = (g, fm)" by (cases s)
  show ?case
  proof (cases "parseFile e x")
    case (Inl err')
    have "(\<exists>pre f post. x # files = pre @ f # post \<and> (\<forall>p\<in>set pre. \<exists>m. parseFile e p = Inr m) \<and>
      parseFile e f = Inl err) = (err' = err)"
    proof
      assume "\<exists>pre f post. x # files = pre @ f # post \<and> (\<forall>p\<in>set pre. \<exists>m. parseFile e p = Inr m) \<and>
        parseFile e f = Inl err"
      then obtain pre f post where d: "x # files = pre @ f # post"
        and ok: "\<forall>p\<in>set pre. \<exists>m. parseFile e p = Inr m" and bad: "parseFile e f = Inl err"
        by blast
      show "err' = err"
      proof (cases pre)
        case Nil
        with d bad Inl show ?thesis by simp
      next
        case (Cons y pre')
        with d ok Inl show ?thesis by auto
      qed
    next
      assume "err' = err"
      with Inl have "x # files = [] @ x # files \<and> (\<forall>p\<in>set []. \<exists>m. parseFile e p = Inr m) \<and>
        parseFile e x = Inl err" by simp
      then show "\<exists>pre f post. x # files = pre @ f # post \<and> (\<forall>p\<in>set pre. \<exists>m. parseFile e p = Inr m) \<and>
        parseFile e f = Inl err" by blast
    qed
    with Inl s show ?thesis by simp
  next
    case (Inr m)
    let ?R = "\<lambda>fs. \<exists>pre f post. fs = pre @ f # post \<and> (\<forall>p\<in>set pre. \<exists>m. parseFile e p = Inr m) \<and>
      parseFile e f = Inl err"
    have "?R (x # files) = ?R files"
    proof
      assume "?R (x # files)"
      then obtain pre f post where d: "x # files = pre @ f # post"
        and ok: "\<forall>p\<in>set pre. \<exists>m. parseFile e p = Inr m" and bad: "parseFile e f = Inl err"
        by blast
      show "?R files"
      proof (cases pre)
        case Nil
        with d bad Inr show ?thesis by simp
      next
        case (Cons y pre')
        with d ok have "files = pre' @ f # post \<and> (\<forall>p\<in>set pre'. \<exists>m. parseFile e p = Inr m)"
          by simp
        with bad show ?thesis by blast
      qed
    next
      assume "?R files"
      then obtain pre f post where d: "files = pre @ f # post"
        and ok: "\<forall>p\<in>set pre. \<exists>m. parseFile e p = Inr m" and bad: "parseFile e f = Inl err"
        by blast
      from d ok Inr have "x # files = (x # pre) @ f # post \<and>
        (\<forall>p\<in>set (x # pre). \<exists>m. parseFile e p = Inr m)" by simp
      with bad show "?R (x # files)" by blast
    qed
    with Inr s Cons.IH show ?thesis by (simp add: Let_def)
  qed
qed

lemma main_Inl_iff:
  "(main e files = Inl err) = (pass1 e files (\<lparr>nodes = [], edges = []\<rparr>, Map.empty) = Inl err)"
  by (simp add: main_def split: sum.splits prod.splits)

lemma all_parsed:
  "\<forall>f\<in>set files. \<exists>m. parseFile e f = Inr m \<Longrightarrow>
   \<exists>ms. list_all2 (\<lambda>f m. parseFile e f = Inr m) files ms"
proof (induction files)
  case Nil
  then show ?case by simp
next
  case (Cons f files)
  then obtain m ms where "parseFile e f = Inr m"
    and "list_all2 (\<lambda>f m. parseFile e f = Inr m) files ms" by auto
  then have "list_all2 (\<lambda>f m. parseFile e f = Inr m) (f # files) (m # ms)" by simp
  then show ?case by blast
qed

lemma parsed_ids:
  "list_all2 (\<lambda>f m. parseFile e f = Inr m) files ms \<Longrightarrow> map id' ms = map (relativePath e) files"
proof (induction files ms rule: list_all2_induct)
  case Nil
  then show ?case by simp
next
  case (Cons f files m ms)
  from parseFile_InrD [OF Cons.hyps(1)] have "id' m = relativePath e f"
    by (auto simp: visitNodes_id)
  with Cons.IH show ?case by simp
qed










lemma stateNodes_ids: "map node_id (stateNodesOf m) = map (stateNodeId (id' m)) (stateVariables m)"
  by (simp add: stateNodesOf_def)

lemma node_ids: "map node_id (concat (map (\<lambda>m. FileNode m # stateNodesOf m) ms)) = concat (map idsOf ms)"
  by (induction ms) (simp_all add: idsOf_def stateNodes_ids)

lemma afterColon_state:
  assumes "CHR '':'' \<notin> set v"
  shows "afterColon (stateNodeId a v) = v"
proof -
  have "takeWhile (\<lambda>c. c \<noteq> CHR '':'') (rev v @ rev (a @ ''::state::'')) =
        rev v @ takeWhile (\<lambda>c. c \<noteq> CHR '':'') (rev (a @ ''::state::''))"
    by (rule takeWhile_append2) (use assms in auto)
  moreover have "takeWhile (\<lambda>c. c \<noteq> CHR '':'') (rev (a @ ''::state::'')) = []"
    by simp
  moreover have "rev (stateNodeId a v) = rev v @ rev (a @ ''::state::'')"
    by (simp add: stateNodeId_def)
  ultimately show ?thesis
    by (simp add: afterColon_def)
qed

lemma stateNodeId_inject:
  assumes "CHR '':'' \<notin> set v" and "CHR '':'' \<notin> set v'"
    and "stateNodeId a v = stateNodeId a' v'"
  shows "a = a' \<and> v = v'"
proof -
  have "afterColon (stateNodeId a v) = afterColon (stateNodeId a' v')"
    using assms(3) by simp
  then have v: "v = v'"
    unfolding afterColon_state [OF assms(1)] afterColon_state [OF assms(2)] .
  with assms(3) have "a @ (''::state::'' @ v) = a' @ (''::state::'' @ v)"
    by (simp add: stateNodeId_def)
  then have "a = a'"
    by (rule append_same_eq [THEN iffD1])
  with v show ?thesis by simp
qed

lemma afterColon_extension:
  assumes "endsWith s x" and "x \<in> set fileExtensions"
  shows "CHR ''.'' \<in> set (afterColon s)"
proof -
  have "s = take (length s - length x) s @ x"
    using assms(1) unfolding endsWith_def by (metis append_take_drop_id)
  then obtain pre where s: "s = pre @ x" ..
  have "takeWhile (\<lambda>c. c \<noteq> CHR '':'') (rev x @ rev pre) =
        rev x @ takeWhile (\<lambda>c. c \<noteq> CHR '':'') (rev pre)"
    by (rule takeWhile_append2) (use assms(2) in \<open>auto simp: fileExtensions_def\<close>)
  then have "set x \<subseteq> set (afterColon s)"
    by (auto simp: afterColon_def s)
  moreover have "CHR ''.'' \<in> set x"
    using assms(2) by (auto simp: fileExtensions_def)
  ultimately show ?thesis by blast
qed

lemma file_id_not_state:
  assumes "endsWith s x" and "x \<in> set fileExtensions"
    and "CHR '':'' \<notin> set v" and "CHR ''.'' \<notin> set v"
  shows "s \<noteq> stateNodeId a v"
  using afterColon_extension [OF assms(1,2)] afterColon_state [OF assms(3), of a] assms(4)
  by auto

lemma distinct_idsOf: "distinct (stateVariables m) \<Longrightarrow> distinct (idsOf m)"
  by (auto simp: idsOf_def stateNodeId_def distinct_map inj_on_def)

lemma idsOf_cases:
  "x \<in> set (idsOf m) \<Longrightarrow> x = id' m \<or> (\<exists>v\<in>set (stateVariables m). x = stateNodeId (id' m) v)"
  by (auto simp: idsOf_def)

lemma idsOf_disjoint:
  assumes "id' m \<noteq> id' m'"
    and "\<exists>x\<in>set fileExtensions. endsWith (id' m) x"
    and "\<exists>x\<in>set fileExtensions. endsWith (id' m') x"
    and "\<forall>v\<in>set (stateVariables m). CHR '':'' \<notin> set v \<and> CHR ''.'' \<notin> set v"
    and "\<forall>v\<in>set (stateVariables m'). CHR '':'' \<notin> set v \<and> CHR ''.'' \<notin> set v"
  shows "set (idsOf m) \<inter> set (idsOf m') = {}"
proof (rule ccontr)
  assume "set (idsOf m) \<inter> set (idsOf m') \<noteq> {}"
  then obtain x where x: "x \<in> set (idsOf m)" and x': "x \<in> set (idsOf m')" by blast
  from idsOf_cases [OF x] show False
  proof
    assume plain: "x = id' m"
    from idsOf_cases [OF x'] show False
    proof
      assume "x = id' m'"
      with plain assms(1) show False by simp
    next
      assume "\<exists>v\<in>set (stateVariables m'). x = stateNodeId (id' m') v"
      then obtain v where "v \<in> set (stateVariables m')" and "x = stateNodeId (id' m') v" by blast
      with plain assms(2,5) file_id_not_state [of "id' m" _ v "id' m'"] show False by auto
    qed
  next
    assume "\<exists>v\<in>set (stateVariables m). x = stateNodeId (id' m) v"
    then obtain v where v: "v \<in> set (stateVariables m)" and state: "x = stateNodeId (id' m) v"
      by blast
    from idsOf_cases [OF x'] show False
    proof
      assume "x = id' m'"
      with state v assms(3,4) file_id_not_state [of "id' m'" _ v "id' m"] show False by auto
    next
      assume "\<exists>v\<in>set (stateVariables m'). x = stateNodeId (id' m') v"
      then obtain v' where "v' \<in> set (stateVariables m')" and "x = stateNodeId (id' m') v'"
        by blast
      with state v assms(4,5) stateNodeId_inject [of v v' "id' m" "id' m'"] assms(1)
      show False by auto
    qed
  qed
qed

lemma distinct_node_ids:
  assumes "distinct (map id' ms)"
    and "\<forall>m\<in>set ms. \<exists>x\<in>set fileExtensions. endsWith (id' m) x"
    and "\<forall>m\<in>set ms. distinct (stateVariables m) \<and>
           (\<forall>v\<in>set (stateVariables m). CHR '':'' \<notin> set v \<and> CHR ''.'' \<notin> set v)"
  shows "distinct (concat (map idsOf ms))"
  using assms
proof (induction ms)
  case Nil
  then show ?case by simp
next
  case (Cons m ms)
  have "set (idsOf m) \<inter> set (idsOf m') = {}" if "m' \<in> set ms" for m'
  proof (rule idsOf_disjoint)
    show "id' m \<noteq> id' m'" using Cons.prems(1) that by (auto simp: image_iff)
    show "\<exists>x\<in>set fileExtensions. endsWith (id' m) x" using Cons.prems(2) by simp
    show "\<exists>x\<in>set fileExtensions. endsWith (id' m') x" using Cons.prems(2) that by simp
    show "\<forall>v\<in>set (stateVariables m). CHR '':'' \<notin> set v \<and> CHR ''.'' \<notin> set v"
      using Cons.prems(3) by simp
    show "\<forall>v\<in>set (stateVariables m'). CHR '':'' \<notin> set v \<and> CHR ''.'' \<notin> set v"
      using Cons.prems(3) that by simp
  qed
  then have "set (idsOf m) \<inter> set (concat (map idsOf ms)) = {}" by auto
  moreover have "distinct (idsOf m)" using Cons.prems(3) by (simp add: distinct_idsOf)
  moreover have "distinct (concat (map idsOf ms))" using Cons by simp
  ultimately show ?case by simp
qed

lemma state_targets: "ed \<in> set (stateEdgesOf m) \<Longrightarrow> target ed \<in> set (idsOf m)"
  by (auto simp: stateEdgesOf_def idsOf_def)

lemma import_targets:
  "ed \<in> set (importEdgesOf (\<lambda>t. t \<in> set (map id' ms)) m) \<Longrightarrow> \<exists>m'\<in>set ms. target ed \<in> set (idsOf m')"
  by (auto simp: importEdgesOf_def idsOf_def)


lemma in_concat_map: "x \<in> set (concat (map f xs)) \<Longrightarrow> \<exists>y\<in>set xs. x \<in> set (f y)"
  by (induction xs) auto

section \<open>The sample project, evaluated\<close>

lemmas sample_codes = code_a_def code_b_def code_counter_def code_single_def code_header_def
  code_foo_def code_panels_def code_effects_def code_broken_def code_dup_def

lemmas path_defs = relativePath_def path_relative_def resolvedSegments_def normalizeSegments_def
  norm_step_def projectRoot_def slashes_def path_extname_def path_basename_def inRoot_def

lemma sample_read:
  "readFileSync sampleEnv (inRoot ''/a.ts'') = Inr code_a"
  "readFileSync sampleEnv (inRoot ''/b.ts'') = Inr code_b"
  "readFileSync sampleEnv (inRoot ''/counter.tsx'') = Inr code_counter"
  "readFileSync sampleEnv (inRoot ''/single.tsx'') = Inr code_single"
  "readFileSync sampleEnv (inRoot ''/header.tsx'') = Inr code_header"
  "readFileSync sampleEnv (inRoot ''/foo.jsx'') = Inr code_foo"
  "readFileSync sampleEnv (inRoot ''/panels.tsx'') = Inr code_panels"
  "readFileSync sampleEnv (inRoot ''/effects.tsx'') = Inr code_effects"
  "readFileSync sampleEnv (inRoot ''/broken.js'') = Inr code_broken"
  "readFileSync sampleEnv (inRoot ''/dup.ts'') = Inr code_dup"
  by (simp_all add: sampleEnv_def sampleSources_def inRoot_def)

lemma sample_parse:
  "parse sampleEnv code_a = Inr ast_a"
  "parse sampleEnv code_b = Inr ast_b"
  "parse sampleEnv code_counter = Inr ast_counter"
  "parse sampleEnv code_single = Inr ast_single"
  "parse sampleEnv code_header = Inr ast_header"
  "parse sampleEnv code_foo = Inr ast_foo"
  "parse sampleEnv code_panels = Inr ast_panels"
  "parse sampleEnv code_effects = Inr ast_effects"
  "parse sampleEnv code_broken = Inl SyntaxError"
  "parse sampleEnv code_dup = Inr ast_dup"
  by (simp_all add: sampleEnv_def sampleSources_def sample_codes)

lemma sample_crawl:
  "scopeCrawl sampleEnv ast_a = None"
  "scopeCrawl sampleEnv ast_b = None"
  "scopeCrawl sampleEnv ast_counter = None"
  "scopeCrawl sampleEnv ast_single = None"
  "scopeCrawl sampleEnv ast_header = None"
  "scopeCrawl sampleEnv ast_foo = None"
  "scopeCrawl sampleEnv ast_panels = None"
  "scopeCrawl sampleEnv ast_effects = None"
  "scopeCrawl sampleEnv ast_dup = Some TypeError"
  by (simp_all add: sampleEnv_def ast_a_def ast_b_def ast_counter_def ast_single_def
      ast_header_def ast_foo_def ast_panels_def ast_effects_def ast_dup_def)

lemma sample_id:
  "relativePath sampleEnv (inRoot ''/a.ts'') = ''a.ts''"
  "relativePath sampleEnv (inRoot ''/b.ts'') = ''b.ts''"
  "relativePath sampleEnv (inRoot ''/counter.tsx'') = ''counter.tsx''"
  "relativePath sampleEnv (inRoot ''/panels.tsx'') = ''panels.tsx''"
  "relativePath sampleEnv (inRoot ''/effects.tsx'') = ''effects.tsx''"
  by (simp_all add: path_defs sampleEnv_def)

lemma sample_stateBindings:
  "stateBindings ast_a = []"
  "stateBindings ast_b = []"
  "stateBindings ast_counter = [''count'']"
  "stateBindings ast_single = [''count'']"
  "stateBindings ast_panels = [''open'', ''open'']"
  by (simp_all add: stateBindings_def descendants_def ast_a_def ast_b_def ast_counter_def
      ast_single_def ast_panels_def openBinding_def)

lemma sample_components:
  "componentDeclarations ast_header = [''Header'']"
  "componentDeclarations ast_foo = []"
  by (simp_all add: componentDeclarations_def descendants_def ast_header_def ast_foo_def upperFirst_def)

lemmas visitor_defs = visitNodes_def descendants_def initialMetadata_def visitVariableDeclarator_def
  visitCallExpression_def visitImportDeclaration_def visitFunctionDeclaration_def
  arrowComponent_def stateBinding_def startsWith_def upperFirst_def routeSpecifier_def

lemma sample_exists:
  "existsSync sampleEnv p = (p \<in> set (map inRoot [''/a.ts'', ''/b.ts'', ''/counter.tsx'',
     ''/single.tsx'', ''/header.tsx'', ''/foo.jsx'', ''/panels.tsx'', ''/effects.tsx'', ''/broken.js'',
     ''/dup.ts'']))"
  by (simp add: sampleEnv_def sampleSources_def)

lemma sample_dirname: "path_dirname (inRoot ''/a.ts'') = projectRoot"
  by (simp add: path_dirname_def inRoot_def projectRoot_def)

lemma sample_fullPath:
  "fullPath sampleEnv (inRoot ''/a.ts'') ''./b'' = inRoot ''/b''"
  "fullPath sampleEnv (inRoot ''/a.ts'') ''./missing'' = inRoot ''/missing''"
  "fullPath sampleEnv (inRoot ''/a.ts'') ''react'' = inRoot ''/react''"
  by (simp_all add: fullPath_def baseDir_def startsWith_def sample_dirname)
     (simp_all add: path_resolve_def resolvedSegments_def normalizeSegments_def norm_step_def
      projectRoot_def inRoot_def sampleEnv_def)

lemma sample_join:
  "path_join (inRoot ''/b'') ''index.js'' = inRoot ''/b/index.js''"
  "path_join (inRoot ''/b'') ''index.jsx'' = inRoot ''/b/index.jsx''"
  "path_join (inRoot ''/b'') ''index.ts'' = inRoot ''/b/index.ts''"
  "path_join (inRoot ''/b'') ''index.tsx'' = inRoot ''/b/index.tsx''"
  "path_join (inRoot ''/missing'') ''index.js'' = inRoot ''/missing/index.js''"
  "path_join (inRoot ''/missing'') ''index.jsx'' = inRoot ''/missing/index.jsx''"
  "path_join (inRoot ''/missing'') ''index.ts'' = inRoot ''/missing/index.ts''"
  "path_join (inRoot ''/missing'') ''index.tsx'' = inRoot ''/missing/index.tsx''"
  "path_join (inRoot ''/react'') ''index.js'' = inRoot ''/react/index.js''"
  "path_join (inRoot ''/react'') ''index.jsx'' = inRoot ''/react/index.jsx''"
  "path_join (inRoot ''/react'') ''index.ts'' = inRoot ''/react/index.ts''"
  "path_join (inRoot ''/react'') ''index.tsx'' = inRoot ''/react/index.tsx''"
  by (simp_all add: path_join_def path_normalize_def normalizeString_def normalizeSegments_def
      norm_step_def projectRoot_def inRoot_def Let_def)

lemma sample_resolve:
  "resolveImportPath sampleEnv (inRoot ''/a.ts'') ''./b'' = Some (inRoot ''/b.ts'')"
  "resolveImportPath sampleEnv (inRoot ''/a.ts'') ''./missing'' = None"
  "resolveImportPath sampleEnv (inRoot ''/a.ts'') ''react'' = None"
  by (simp_all add: resolveImportPath_def sample_fullPath [unfolded inRoot_def] possibilities_def
      sample_join [unfolded inRoot_def] sample_exists inRoot_def)

lemma sample_parseFile:
  "parseFile sampleEnv (inRoot ''/a.ts'') = Inr
     \<lparr>id' = ''a.ts'', linesOfCode = 1, components = [], usesState = False, usesEffect = False,
      usesHooks = [], usesContext = False, declaresRoutes = False, stateVariables = [],
      imports' = [''b.ts''], fileType = ''ts''\<rparr>"
  "parseFile sampleEnv (inRoot ''/b.ts'') = Inr
     \<lparr>id' = ''b.ts'', linesOfCode = 1, components = [], usesState = False, usesEffect = False,
      usesHooks = [], usesContext = False, declaresRoutes = False, stateVariables = [],
      imports' = [], fileType = ''ts''\<rparr>"
  "parseFile sampleEnv (inRoot ''/counter.tsx'') = Inr
     \<lparr>id' = ''counter.tsx'', linesOfCode = 1, components = [], usesState = True, usesEffect = False,
      usesHooks = [''useState'', ''useState''], usesContext = False, declaresRoutes = False,
      stateVariables = [''count''], imports' = [], fileType = ''tsx''\<rparr>"
  "parseFile sampleEnv (inRoot ''/panels.tsx'') = Inr
     \<lparr>id' = ''panels.tsx'', linesOfCode = 1, components = [''A'', ''B''], usesState = True,
      usesEffect = False, usesHooks = [''useState'', ''useState'', ''useState''],
      usesContext = False, declaresRoutes = False, stateVariables = [''open'', ''open''],
      imports' = [], fileType = ''tsx''\<rparr>"
  "parseFile sampleEnv (inRoot ''/effects.tsx'') = Inr
     \<lparr>id' = ''effects.tsx'', linesOfCode = 1, components = [], usesState = False,
      usesEffect = True, usesHooks = [''useEffect'', ''useEffect''],
      usesContext = False, declaresRoutes = False, stateVariables = [],
      imports' = [], fileType = ''tsx''\<rparr>"
  "parseFile sampleEnv (inRoot ''/broken.js'') = Inl SyntaxError"
  "parseFile sampleEnv (inRoot ''/dup.ts'') = Inl TypeError"
  unfolding parseFile_def sample_read sum.case sample_parse traverse_def sample_crawl option.case
  by (simp_all add: visitor_defs sample_resolve sample_id ast_a_def ast_b_def ast_counter_def
      ast_panels_def ast_effects_def openBinding_def)
     (simp_all add: sample_codes path_extname_def path_basename_def inRoot_def projectRoot_def)

lemma backslash_parseFile:
  "parseFile backslashEnv (inRoot ''/lib/b.ts'') = Inr
     \<lparr>id' = ''lib/b.ts'', linesOfCode = 1, components = [], usesState = False,
      usesEffect = False, usesHooks = [], usesContext = False, declaresRoutes = False,
      stateVariables = [], imports' = [], fileType = ''ts''\<rparr>"
  "parseFile backslashEnv (inRoot backslashName) = Inr
     \<lparr>id' = ''lib/b.ts'', linesOfCode = 1, components = [], usesState = False,
      usesEffect = False, usesHooks = [], usesContext = False, declaresRoutes = False,
      stateVariables = [], imports' = [], fileType = ''ts''\<rparr>"
  by (simp_all add: parseFile_def traverse_def backslashEnv_def backslashName_def visitor_defs
      ast_b_def code_b_def path_defs)


lemma sample_main:
  "main sampleEnv [inRoot ''/a.ts'', inRoot ''/b.ts'', inRoot ''/counter.tsx''] = Inr sampleGraph"
proof -
  have "list_all2 (\<lambda>f m. parseFile sampleEnv f = Inr m)
      [inRoot ''/a.ts'', inRoot ''/b.ts'', inRoot ''/counter.tsx'']
      [\<lparr>id' = ''a.ts'', linesOfCode = 1, components = [], usesState = False,
        usesEffect = False, usesHooks = [], usesContext = False, declaresRoutes = False,
        stateVariables = [], imports' = [''b.ts''], fileType = ''ts''\<rparr>,
       \<lparr>id' = ''b.ts'', linesOfCode = 1, components = [], usesState = False,
        usesEffect = False, usesHooks = [], usesContext = False, declaresRoutes = False,
        stateVariables = [], imports' = [], fileType = ''ts''\<rparr>,
       \<lparr>id' = ''counter.tsx'', linesOfCode = 1, components = [], usesState = True,
        usesEffect = False, usesHooks = [''useState'', ''useState''], usesContext = False,
        declaresRoutes = False, stateVariables = [''count''], imports' = [],
        fileType = ''tsx''\<rparr>]"
    by (simp add: sample_parseFile)
  from main_graph [OF this] show ?thesis
    by (simp add: sampleGraph_def stateNodesOf_def stateEdgesOf_def importEdgesOf_def stateNodeId_def)
qed

section \<open>The claims\<close>

subsection \<open>C1: a file that cannot be read or parsed\<close>

text \<open>
  C1, as stated: a read or parse failure is a fault of one file; the file is skipped and
  the remaining files are classified and appear in the graph.  \<open>main\<close> has no failure
  boundary around \<open>parseFile\<close>: with \<open>broken.js\<close> before \<open>b.ts\<close>, which parses,
  \<open>main\<close> ends with the syntax error and there is no graph for \<open>b.ts\<close> to appear in.
\<close>

theorem parse_failure_ends_run:
  "parseFile sampleEnv (inRoot ''/broken.js'') = Inl SyntaxError \<and>
   parseFile sampleEnv (inRoot ''/b.ts'') = Inr
     \<lparr>id' = ''b.ts'', linesOfCode = 1, components = [], usesState = False, usesEffect = False,
      usesHooks = [], usesContext = False, declaresRoutes = False, stateVariables = [],
      imports' = [], fileType = ''ts''\<rparr> \<and>
   main sampleEnv [inRoot ''/broken.js'', inRoot ''/b.ts''] = Inl SyntaxError"
  by (simp add: sample_parseFile main_def)

text \<open>
  C1, amended: \<open>main\<close> ends with the failure of the first file, in the order of
  discovery, on which \<open>parseFile\<close> fails, and then produces no graph; when
  \<open>parseFile\<close> succeeds on every file, \<open>main\<close> produces a graph that holds the
  record of every file, in that order.  \<open>parseFile\<close> fails when the file cannot be
  read, when its text cannot be parsed, and when the traversal of its tree throws.
\<close>

theorem main_stops_at_first_failure:
  "((main e files = Inl err) =
      (\<exists>pre f post. files = pre @ f # post \<and> (\<forall>p\<in>set pre. \<exists>m. parseFile e p = Inr m) \<and>
         parseFile e f = Inl err)) \<and>
   ((\<forall>f\<in>set files. \<exists>m. parseFile e f = Inr m) \<longrightarrow>
      (\<exists>g. main e files = Inr g \<and>
           list_all2 (\<lambda>f m. parseFile e f = Inr m) files (fileRecords g))) \<and>
   ((parseFile e file = Inl err) =
      (readFileSync e file = Inl err \<or>
       (\<exists>code. readFileSync e file = Inr code \<and>
          (parse e code = Inl err \<or>
           (\<exists>ast. parse e code = Inr ast \<and> scopeCrawl e ast = Some err)))))"
proof (intro conjI)
  show "(main e files = Inl err) =
      (\<exists>pre f post. files = pre @ f # post \<and> (\<forall>p\<in>set pre. \<exists>m. parseFile e p = Inr m) \<and>
         parseFile e f = Inl err)"
    by (simp only: main_Inl_iff pass1_Inl_iff)
next
  show "(\<forall>f\<in>set files. \<exists>m. parseFile e f = Inr m) \<longrightarrow>
      (\<exists>g. main e files = Inr g \<and>
           list_all2 (\<lambda>f m. parseFile e f = Inr m) files (fileRecords g))"
  proof
    assume "\<forall>f\<in>set files. \<exists>m. parseFile e f = Inr m"
    then obtain ms where ms: "list_all2 (\<lambda>f m. parseFile e f = Inr m) files ms"
      using all_parsed by blast
    from main_graph [OF ms] ms show "\<exists>g. main e files = Inr g \<and>
           list_all2 (\<lambda>f m. parseFile e f = Inr m) files (fileRecords g)"
      by (simp add: fileRecords_def fileRecord_nodes)
  qed
next
  show "(parseFile e file = Inl err) =
      (readFileSync e file = Inl err \<or>
       (\<exists>code. readFileSync e file = Inr code \<and>
          (parse e code = Inl err \<or>
           (\<exists>ast. parse e code = Inr ast \<and> scopeCrawl e ast = Some err))))"
    by (rule parseFile_Inl_iff)
qed

theorem main_stops_at_first_failure_witness:
  "main sampleEnv [inRoot ''/b.ts'', inRoot ''/broken.js'', inRoot ''/a.ts''] = Inl SyntaxError \<and>
   main sampleEnv [inRoot ''/b.ts'', inRoot ''/dup.ts''] = Inl TypeError \<and>
   readFileSync sampleEnv (inRoot ''/dup.ts'') = Inr code_dup \<and>
   parse sampleEnv code_dup = Inr ast_dup \<and>
   parseFile sampleEnv (inRoot ''/dup.ts'') = Inl TypeError \<and>
   (\<exists>g. main sampleEnv [inRoot ''/a.ts'', inRoot ''/b.ts''] = Inr g \<and>
        list_all2 (\<lambda>f m. parseFile sampleEnv f = Inr m) [inRoot ''/a.ts'', inRoot ''/b.ts'']
          (fileRecords g))"
proof (intro conjI)
  let ?files = "[inRoot ''/b.ts'', inRoot ''/broken.js'', inRoot ''/a.ts'']"
  have "?files = [inRoot ''/b.ts''] @ inRoot ''/broken.js'' # [inRoot ''/a.ts''] \<and>
      (\<forall>p\<in>set [inRoot ''/b.ts'']. \<exists>m. parseFile sampleEnv p = Inr m) \<and>
      parseFile sampleEnv (inRoot ''/broken.js'') = Inl SyntaxError"
    by (simp add: sample_parseFile)
  then have "\<exists>pre f post. ?files = pre @ f # post \<and>
      (\<forall>p\<in>set pre. \<exists>m. parseFile sampleEnv p = Inr m) \<and> parseFile sampleEnv f = Inl SyntaxError"
    by blast
  then show "main sampleEnv ?files = Inl SyntaxError"
    using main_stops_at_first_failure [of sampleEnv ?files SyntaxError] by blast
next
  let ?files = "[inRoot ''/b.ts'', inRoot ''/dup.ts'']"
  have "readFileSync sampleEnv (inRoot ''/dup.ts'') = Inr code_dup \<and>
      parse sampleEnv code_dup = Inr ast_dup \<and> scopeCrawl sampleEnv ast_dup = Some TypeError"
    by (simp add: sample_read sample_parse sample_crawl)
  then have dup: "parseFile sampleEnv (inRoot ''/dup.ts'') = Inl TypeError"
    using main_stops_at_first_failure [of sampleEnv "[]" TypeError "inRoot ''/dup.ts''"] by blast
  then show "parseFile sampleEnv (inRoot ''/dup.ts'') = Inl TypeError" .
  from dup have "?files = [inRoot ''/b.ts''] @ inRoot ''/dup.ts'' # [] \<and>
      (\<forall>p\<in>set [inRoot ''/b.ts'']. \<exists>m. parseFile sampleEnv p = Inr m) \<and>
      parseFile sampleEnv (inRoot ''/dup.ts'') = Inl TypeError"
    by (simp add: sample_parseFile)
  then have "\<exists>pre f post. ?files = pre @ f # post \<and>
      (\<forall>p\<in>set pre. \<exists>m. parseFile sampleEnv p = Inr m) \<and> parseFile sampleEnv f = Inl TypeError"
    by blast
  then show "main sampleEnv ?files = Inl TypeError"
    using main_stops_at_first_failure [of sampleEnv ?files TypeError] by blast
next
  show "readFileSync sampleEnv (inRoot ''/dup.ts'') = Inr code_dup"
    by (simp add: sample_read)
next
  show "parse sampleEnv code_dup = Inr ast_dup"
    by (simp add: sample_parse)
next
  have "\<forall>f\<in>set [inRoot ''/a.ts'', inRoot ''/b.ts'']. \<exists>m. parseFile sampleEnv f = Inr m"
    by (simp add: sample_parseFile)
  then show "\<exists>g. main sampleEnv [inRoot ''/a.ts'', inRoot ''/b.ts''] = Inr g \<and>
        list_all2 (\<lambda>f m. parseFile sampleEnv f = Inr m) [inRoot ''/a.ts'', inRoot ''/b.ts'']
          (fileRecords g)"
    using main_stops_at_first_failure [of sampleEnv "[inRoot ''/a.ts'', inRoot ''/b.ts'']" SyntaxError]
    by blast
qed

subsection \<open>C2: state variables\<close>

text \<open>
  C2, as stated: a binding is recorded exactly when its pattern has two or more
  elements, the first an identifier, and its right-hand side calls \<open>useState\<close>.  The
  visitor asks for \<open>elements.length > 0\<close>: the one-element pattern of
  \<open>const [count] = useState(0)\<close> is recorded too.
\<close>

theorem single_element_pattern_recorded:
  "parse sampleEnv code_single = Inr ast_single \<and>
   descendants ast_single ! 2 =
     VariableDeclarator (ArrayPattern [Some (Identifier ''count'')])
       (Some (CallExpression (Identifier ''useState'') [Other ''NumericLiteral'' []])) \<and>
   \<not> 2 \<le> length [Some (Identifier ''count'')] \<and>
   map_sum id stateVariables (parseFile sampleEnv (inRoot ''/single.tsx'')) = Inr [''count'']"
  by (simp add: sample_parse parseFile_Inr [OF sample_read(4) sample_parse(4) sample_crawl(4)]
      visitNodes_stateVariables sample_stateBindings)
    (simp add: ast_single_def descendants_def)

text \<open>
  C2, amended: the state variables of a classified file are the first identifiers of the bindings,
  in traversal order, whose pattern has one or more elements, the first an identifier,
  and whose right-hand side is a call of the identifier \<open>useState\<close>; when there is
  such a binding, \<open>usesHooks\<close> contains \<open>useState\<close> and \<open>usesState\<close> is true.
\<close>

theorem state_bindings_recorded:
  assumes "parseFile e filePath = Inr m"
    and "readFileSync e filePath = Inr code" and "parse e code = Inr ast"
  shows "stateVariables m = stateBindings ast \<and>
         (stateBindings ast \<noteq> [] \<longrightarrow> ''useState'' \<in> set (usesHooks m) \<and> usesState m)"
proof -
  have m: "m = visitNodes e filePath ast (initialMetadata e filePath code)"
    using assms by (rule parseFile_record)
  have "stateVariables m = stateBindings ast"
    unfolding m by (rule visitNodes_stateVariables)
  moreover have "''useState'' \<in> set (usesHooks m) \<and> usesState m" if "stateBindings ast \<noteq> []"
    using visitNodes_usesState [OF that, of e filePath code]
      visitNodes_flagsAgree [of e filePath ast code]
    unfolding m by (simp add: flagsAgree_def)
  ultimately show ?thesis by blast
qed

theorem state_bindings_recorded_witness:
  "readFileSync sampleEnv (inRoot ''/counter.tsx'') = Inr code_counter \<and>
   parse sampleEnv code_counter = Inr ast_counter \<and>
   stateBindings ast_counter = [''count''] \<and>
   (\<exists>m. parseFile sampleEnv (inRoot ''/counter.tsx'') = Inr m \<and> stateVariables m = [''count''] \<and>
        ''useState'' \<in> set (usesHooks m) \<and> usesState m)"
  using state_bindings_recorded [OF sample_parseFile(3) sample_read(3) sample_parse(3)]
  by (simp add: sample_read sample_parse sample_stateBindings sample_parseFile)

subsection \<open>C3: hook names\<close>

text \<open>
  C3: \<open>usesHooks\<close> holds no name twice.  The \<open>CallExpression\<close> visitor pushes
  \<open>useState\<close> and \<open>useEffect\<close> without the \<open>includes\<close> test that guards
  \<open>useContext\<close> and every other hook name: the single binding
  \<open>const [count, setCount] = useState(0)\<close> leaves \<open>useState\<close> twice in the list
  (once from the declarator, once from the call), and two calls of \<open>useEffect\<close> leave
  that name twice.
\<close>

theorem usesHooks_repeats_names:
  "map_sum id usesHooks (parseFile sampleEnv (inRoot ''/counter.tsx'')) =
     Inr [''useState'', ''useState''] \<and>
   map_sum id usesHooks (parseFile sampleEnv (inRoot ''/effects.tsx'')) =
     Inr [''useEffect'', ''useEffect'']"
  by (simp add: sample_parseFile)

subsection \<open>C4: components\<close>

text \<open>
  C4, as stated: a name is a component exactly when it names a function declaration, or
  a binding initialised to a function expression, and starts with an upper-case letter.
  The \<open>VariableDeclarator\<close> visitor asks for an \<open>ArrowFunctionExpression\<close>:
  \<open>const Foo = function(){}\<close> is not recorded.
\<close>

theorem function_expression_not_recorded:
  "parse sampleEnv code_foo = Inr ast_foo \<and>
   descendants ast_foo ! 2 =
     VariableDeclarator (Identifier ''Foo'') (Some (FunctionExpression None [Other ''BlockStatement'' []])) \<and>
   upperFirst ''Foo'' \<and>
   map_sum id components (parseFile sampleEnv (inRoot ''/foo.jsx'')) = Inr []"
  by (simp add: sample_parse parseFile_Inr [OF sample_read(6) sample_parse(6) sample_crawl(6)]
      visitNodes_components sample_components)
    (simp add: ast_foo_def descendants_def upperFirst_def)

text \<open>
  C4, amended: the components of a classified file are, in traversal order, the names starting with
  a letter \<open>A\<close> to \<open>Z\<close> of its function declarations and of its bindings of an
  identifier to an arrow function.  So \<open>function Header(){}\<close> is recorded and
  \<open>function helper(){}\<close> is not.
\<close>

theorem components_recorded:
  assumes "parseFile e filePath = Inr m"
    and "readFileSync e filePath = Inr code" and "parse e code = Inr ast"
  shows "components m = componentDeclarations ast"
proof -
  have "m = visitNodes e filePath ast (initialMetadata e filePath code)"
    using assms by (rule parseFile_record)
  then show ?thesis by (simp add: visitNodes_components)
qed

theorem components_recorded_witness:
  "readFileSync sampleEnv (inRoot ''/header.tsx'') = Inr code_header \<and>
   parse sampleEnv code_header = Inr ast_header \<and>
   componentDeclarations ast_header = [''Header''] \<and>
   (\<exists>m. parseFile sampleEnv (inRoot ''/header.tsx'') = Inr m \<and> components m = [''Header''])"
proof -
  obtain m where m: "parseFile sampleEnv (inRoot ''/header.tsx'') = Inr m"
    using parseFile_Inr [OF sample_read(5) sample_parse(5) sample_crawl(5)] by blast
  from components_recorded [OF m sample_read(5) sample_parse(5)] m show ?thesis
    by (simp add: sample_read sample_parse sample_components)
qed

subsection \<open>C5: the order of the candidates\<close>

text \<open>
  C5: the base directory is the directory of the importing file when the specifier
  starts with \<open>.\<close> or \<open>..\<close>, the project root otherwise, and \<open>base\<close> is the
  specifier resolved against it; the eight candidates \<open>base.js\<close>, \<open>base.jsx\<close>,
  \<open>base.ts\<close>, \<open>base.tsx\<close>, \<open>base/index.js\<close>, \<open>base/index.jsx\<close>,
  \<open>base/index.ts\<close>, \<open>base/index.tsx\<close> (below the root \<open>/\<close>, \<open>/index.js\<close> and
  so on) are tried in this order; the result is the first candidate that exists, and
  \<open>null\<close>, not a failure, when none does.
\<close>

theorem resolveImportPath_first_existing:
  "(let base = path_resolve (cwd e)
        [if startsWith importPath ''.'' \<or> startsWith importPath ''..''
         then path_dirname fromFile else projectRoot, importPath];
       below = (\<lambda>name. if base = ''/'' then ''/'' @ name else base @ ''/'' @ name);
       candidates =
        [base @ ''.js'', base @ ''.jsx'', base @ ''.ts'', base @ ''.tsx'',
         below ''index.js'', below ''index.jsx'', below ''index.ts'', below ''index.tsx'']
    in ((resolveImportPath e fromFile importPath = Some p) =
          (\<exists>i<8. candidates ! i = p \<and> existsSync e p \<and> (\<forall>j<i. \<not> existsSync e (candidates ! j)))) \<and>
       ((resolveImportPath e fromFile importPath = None) =
          (\<forall>c\<in>set candidates. \<not> existsSync e c)))"
proof -
  define base where "base = path_resolve (cwd e)
        [if startsWith importPath ''.'' \<or> startsWith importPath ''..''
         then path_dirname fromFile else projectRoot, importPath]"
  define below where "below = (\<lambda>name. if base = ''/'' then ''/'' @ name else base @ ''/'' @ name)"
  define candidates where "candidates =
        [base @ ''.js'', base @ ''.jsx'', base @ ''.ts'', base @ ''.tsx'',
         below ''index.js'', below ''index.jsx'', below ''index.ts'', below ''index.tsx'']"
  have rel: "(startsWith importPath ''.'' \<or> startsWith importPath ''..'') = startsWith importPath ''.''"
    by (cases importPath) (auto simp: startsWith_def split: list.splits)
  have join: "path_join base name = below name" if "plainSegment name" for name
    unfolding base_def below_def by (rule path_join_resolved [OF that])
  have index: "plainSegment ''index.js''" "plainSegment ''index.jsx''"
    "plainSegment ''index.ts''" "plainSegment ''index.tsx''"
    by (simp_all add: plainSegment_def)
  have len: "length candidates = 8"
    by (simp add: candidates_def)
  have "fullPath e fromFile importPath = base"
    by (simp add: fullPath_def baseDir_def rel base_def)
  then have "possibilities (fullPath e fromFile importPath) = candidates"
    by (simp add: possibilities_def candidates_def join index)
  then have find: "resolveImportPath e fromFile importPath = List.find (existsSync e) candidates"
    by (simp add: resolveImportPath_def first_existing_find)
  have "(resolveImportPath e fromFile importPath = Some p) =
          (\<exists>i<length candidates. candidates ! i = p \<and> existsSync e p \<and>
             (\<forall>j<i. \<not> existsSync e (candidates ! j)))"
    unfolding find find_Some_iff by auto
  then have some: "(resolveImportPath e fromFile importPath = Some p) =
          (\<exists>i<8. candidates ! i = p \<and> existsSync e p \<and> (\<forall>j<i. \<not> existsSync e (candidates ! j)))"
    unfolding len .
  have none: "(resolveImportPath e fromFile importPath = None) =
          (\<forall>c\<in>set candidates. \<not> existsSync e c)"
    unfolding find find_None_iff by blast
  from some none show ?thesis
    unfolding Let_def candidates_def below_def base_def by (rule conjI)
qed

theorem resolveImportPath_first_existing_witness:
  "resolveImportPath sampleEnv (inRoot ''/a.ts'') ''./b'' = Some (inRoot ''/b.ts'') \<and>
   resolveImportPath sampleEnv (inRoot ''/a.ts'') ''react'' = None"
proof
  have base: "path_resolve (cwd sampleEnv)
      [if startsWith ''./b'' ''.'' \<or> startsWith ''./b'' ''..''
       then path_dirname (inRoot ''/a.ts'') else projectRoot, ''./b''] = inRoot ''/b''"
    using sample_fullPath(1) by (simp add: fullPath_def baseDir_def startsWith_def)
  have below: "inRoot ''/b'' \<noteq> ''/''"
    by (simp add: inRoot_def projectRoot_def)
  let ?candidates = "[inRoot ''/b'' @ ''.js'', inRoot ''/b'' @ ''.jsx'', inRoot ''/b'' @ ''.ts'',
      inRoot ''/b'' @ ''.tsx'', inRoot ''/b'' @ ''/'' @ ''index.js'',
      inRoot ''/b'' @ ''/'' @ ''index.jsx'', inRoot ''/b'' @ ''/'' @ ''index.ts'',
      inRoot ''/b'' @ ''/'' @ ''index.tsx'']"
  have third: "2 < (8::nat) \<and> ?candidates ! 2 = inRoot ''/b.ts'' \<and>
      existsSync sampleEnv (inRoot ''/b.ts'') \<and>
      (\<forall>j<2. \<not> existsSync sampleEnv (?candidates ! j))"
    by (auto simp: sample_exists inRoot_def less_2_cases_iff)
  then have "\<exists>i<8. ?candidates ! i = inRoot ''/b.ts'' \<and> existsSync sampleEnv (inRoot ''/b.ts'') \<and>
      (\<forall>j<i. \<not> existsSync sampleEnv (?candidates ! j))"
    by blast
  then show "resolveImportPath sampleEnv (inRoot ''/a.ts'') ''./b'' = Some (inRoot ''/b.ts'')"
    using resolveImportPath_first_existing
      [where e = sampleEnv and fromFile = "inRoot ''/a.ts''" and importPath = "''./b''"
         and p = "inRoot ''/b.ts''", unfolded Let_def base if_not_P [OF below]]
    by blast
next
  have base: "path_resolve (cwd sampleEnv)
      [if startsWith ''react'' ''.'' \<or> startsWith ''react'' ''..''
       then path_dirname (inRoot ''/a.ts'') else projectRoot, ''react''] = inRoot ''/react''"
    using sample_fullPath(3) by (simp add: fullPath_def baseDir_def startsWith_def)
  have below: "inRoot ''/react'' \<noteq> ''/''"
    by (simp add: inRoot_def projectRoot_def)
  let ?candidates = "[inRoot ''/react'' @ ''.js'', inRoot ''/react'' @ ''.jsx'',
      inRoot ''/react'' @ ''.ts'', inRoot ''/react'' @ ''.tsx'',
      inRoot ''/react'' @ ''/'' @ ''index.js'', inRoot ''/react'' @ ''/'' @ ''index.jsx'',
      inRoot ''/react'' @ ''/'' @ ''index.ts'', inRoot ''/react'' @ ''/'' @ ''index.tsx'']"
  have "\<forall>c\<in>set ?candidates. \<not> existsSync sampleEnv c"
    by (simp add: sample_exists inRoot_def)
  then show "resolveImportPath sampleEnv (inRoot ''/a.ts'') ''react'' = None"
    using resolveImportPath_first_existing
      [where e = sampleEnv and fromFile = "inRoot ''/a.ts''" and importPath = "''react''"
         and p = "inRoot ''/b.ts''", unfolded Let_def base if_not_P [OF below]]
    by blast
qed

subsection \<open>C6: imports edges\<close>



subsection \<open>C7: state edges and state nodes\<close>



subsection \<open>C8: edge targets and node identities\<close>

text \<open>
  C8, as stated: every edge target is a node and node identities are unique.  A file
  that binds the same state variable name twice, as two components that each have
  \<open>const [open, setOpen] = useState(...)\<close>, gets two state nodes with one identity.
  And two files get one identity when their paths differ only in a backslash in a file
  name where the other has a slash, since \<open>parseFile\<close> replaces every backslash of the
  relative path by a slash.
\<close>

theorem node_ids_repeat:
  "map_sum id (\<lambda>g. map node_id (nodes g)) (main sampleEnv [inRoot ''/panels.tsx'']) =
     Inr [''panels.tsx'', ''panels.tsx::state::open'', ''panels.tsx::state::open''] \<and>
   inRoot ''/lib/b.ts'' \<noteq> inRoot backslashName \<and>
   map_sum id (\<lambda>g. map node_id (nodes g))
       (main backslashEnv [inRoot ''/lib/b.ts'', inRoot backslashName]) =
     Inr [''lib/b.ts'', ''lib/b.ts'']"
proof (intro conjI)
  show "map_sum id (\<lambda>g. map node_id (nodes g)) (main sampleEnv [inRoot ''/panels.tsx'']) =
     Inr [''panels.tsx'', ''panels.tsx::state::open'', ''panels.tsx::state::open'']"
    by (simp add: main_def sample_parseFile pass2_def pushState_def stateNodeId_def)
next
  show "inRoot ''/lib/b.ts'' \<noteq> inRoot backslashName"
    by (simp add: inRoot_def backslashName_def)
next
  show "map_sum id (\<lambda>g. map node_id (nodes g))
       (main backslashEnv [inRoot ''/lib/b.ts'', inRoot backslashName]) =
     Inr [''lib/b.ts'', ''lib/b.ts'']"
    by (simp add: main_def backslash_parseFile pass2_def)
qed

text \<open>
  C8, amended: in every graph that \<open>main\<close> produces the target of every edge is the
  identity of a node; the node identities are unique when distinct files have distinct
  identities and no file binds the same state variable name twice.  This is for files
  as \<open>glob\<close> finds them, whose identities end in one of the four extensions, and for
  state variable names as the parser yields them, identifiers without a colon or a dot.
\<close>

theorem edge_targets_exist_and_ids_unique:
  assumes "\<forall>f\<in>set files. \<exists>m. parseFile e f = Inr m"
  shows "\<exists>g. main e files = Inr g \<and>
     (\<forall>ed\<in>set (edges g). target ed \<in> set (map node_id (nodes g))) \<and>
     (distinct (map (relativePath e) files) \<and>
      (\<forall>m\<in>set (fileRecords g). distinct (stateVariables m)) \<and>
      (\<forall>f\<in>set files. \<exists>x\<in>set fileExtensions. endsWith (relativePath e f) x) \<and>
      (\<forall>m\<in>set (fileRecords g). \<forall>v\<in>set (stateVariables m).
          CHR '':'' \<notin> set v \<and> CHR ''.'' \<notin> set v) \<longrightarrow>
      distinct (map node_id (nodes g)))"
proof -
  obtain ms where ms: "list_all2 (\<lambda>f m. parseFile e f = Inr m) files ms"
    using all_parsed [OF assms] by blast
  let ?K = "\<lambda>t. t \<in> set (map id' ms)"
  let ?g = "\<lparr>nodes = concat (map (\<lambda>m. FileNode m # stateNodesOf m) ms),
            edges = concat (map stateEdgesOf ms) @ concat (map (importEdgesOf ?K) ms)\<rparr>"
  have g: "main e files = Inr ?g" by (rule main_graph [OF ms])
  have ids: "map id' ms = map (relativePath e) files" by (rule parsed_ids [OF ms])
  have nodes: "map node_id (nodes ?g) = concat (map idsOf ms)" by (simp add: node_ids)
  have recs: "fileRecords ?g = ms" by (simp add: fileRecords_def fileRecord_nodes)
  have targets: "\<forall>ed\<in>set (edges ?g). target ed \<in> set (map node_id (nodes ?g))"
  proof
    fix ed assume "ed \<in> set (edges ?g)"
    then have "ed \<in> set (concat (map stateEdgesOf ms)) \<or>
      ed \<in> set (concat (map (importEdgesOf ?K) ms))" by simp
    then consider m where "m \<in> set ms" "ed \<in> set (stateEdgesOf m)"
      | m where "m \<in> set ms" "ed \<in> set (importEdgesOf ?K m)"
      using in_concat_map [of ed stateEdgesOf ms] in_concat_map [of ed "importEdgesOf ?K" ms]
      by blast
    then have "\<exists>m'\<in>set ms. target ed \<in> set (idsOf m')"
    proof cases
      case 1
      then show ?thesis using state_targets by blast
    next
      case 2
      then show ?thesis using import_targets by blast
    qed
    then show "target ed \<in> set (map node_id (nodes ?g))"
      unfolding nodes by auto
  qed
  have unique: "distinct (map node_id (nodes ?g))"
    if "distinct (map (relativePath e) files) \<and>
      (\<forall>m\<in>set (fileRecords ?g). distinct (stateVariables m)) \<and>
      (\<forall>f\<in>set files. \<exists>x\<in>set fileExtensions. endsWith (relativePath e f) x) \<and>
      (\<forall>m\<in>set (fileRecords ?g). \<forall>v\<in>set (stateVariables m).
          CHR '':'' \<notin> set v \<and> CHR ''.'' \<notin> set v)"
  proof -
    have "distinct (map id' ms)" using that ids by simp
    moreover have "\<forall>m\<in>set ms. \<exists>x\<in>set fileExtensions. endsWith (id' m) x"
    proof
      fix m assume "m \<in> set ms"
      then have "id' m \<in> set (map (relativePath e) files)" unfolding ids [symmetric] by simp
      with that show "\<exists>x\<in>set fileExtensions. endsWith (id' m) x" by auto
    qed
    moreover have "\<forall>m\<in>set ms. distinct (stateVariables m) \<and>
           (\<forall>v\<in>set (stateVariables m). CHR '':'' \<notin> set v \<and> CHR ''.'' \<notin> set v)"
      using that unfolding recs by blast
    ultimately show ?thesis unfolding nodes by (rule distinct_node_ids)
  qed
  from g targets unique show ?thesis by blast
qed

theorem edge_targets_exist_and_ids_unique_witness:
  "\<exists>g. main sampleEnv [inRoot ''/a.ts'', inRoot ''/b.ts'', inRoot ''/counter.tsx''] = Inr g \<and>
       list_all (\<lambda>ed. target ed \<in> set (map node_id (nodes g))) (edges g) \<and>
       distinct (map node_id (nodes g)) \<and>
       map node_id (nodes g) = [''a.ts'', ''b.ts'', ''counter.tsx'', ''counter.tsx::state::count'']"
proof -
  let ?files = "[inRoot ''/a.ts'', inRoot ''/b.ts'', inRoot ''/counter.tsx'']"
  have ok: "\<forall>f\<in>set ?files. \<exists>m. parseFile sampleEnv f = Inr m"
    by (simp add: sample_parseFile)
  from edge_targets_exist_and_ids_unique [OF ok]
  obtain g where g: "main sampleEnv ?files = Inr g"
    and targets: "\<forall>ed\<in>set (edges g). target ed \<in> set (map node_id (nodes g))"
    and unique: "distinct (map (relativePath sampleEnv) ?files) \<and>
      (\<forall>m\<in>set (fileRecords g). distinct (stateVariables m)) \<and>
      (\<forall>f\<in>set ?files. \<exists>x\<in>set fileExtensions. endsWith (relativePath sampleEnv f) x) \<and>
      (\<forall>m\<in>set (fileRecords g). \<forall>v\<in>set (stateVariables m).
          CHR '':'' \<notin> set v \<and> CHR ''.'' \<notin> set v) \<longrightarrow>
      distinct (map node_id (nodes g))"
    by blast
  from g have G: "g = sampleGraph"
    unfolding sample_main by simp
  have "distinct (map (relativePath sampleEnv) ?files) \<and>
      (\<forall>m\<in>set (fileRecords g). distinct (stateVariables m)) \<and>
      (\<forall>f\<in>set ?files. \<exists>x\<in>set fileExtensions. endsWith (relativePath sampleEnv f) x) \<and>
      (\<forall>m\<in>set (fileRecords g). \<forall>v\<in>set (stateVariables m).
          CHR '':'' \<notin> set v \<and> CHR ''.'' \<notin> set v)"
    unfolding G
    by (simp add: sample_id fileRecords_def sampleGraph_def endsWith_def fileExtensions_def)
  with unique have d: "distinct (map node_id (nodes g))" by (rule mp)
  have t: "list_all (\<lambda>ed. target ed \<in> set (map node_id (nodes g))) (edges g)"
    using targets by (simp add: list_all_iff)
  have n: "map node_id (nodes g) = [''a.ts'', ''b.ts'', ''counter.tsx'', ''counter.tsx::state::count'']"
    unfolding G by (simp add: sampleGraph_def)
  have "main sampleEnv ?files = Inr g \<and>
       list_all (\<lambda>ed. target ed \<in> set (map node_id (nodes g))) (edges g) \<and>
       distinct (map node_id (nodes g)) \<and>
       map node_id (nodes g) = [''a.ts'', ''b.ts'', ''counter.tsx'', ''counter.tsx::state::count'']"
    by (intro conjI) (rule g, rule t, rule d, rule n)
  then show ?thesis by (rule exI [of _ g])
qed

subsection \<open>C9: resolution is deterministic\<close>

text \<open>
  C9: the result of \<open>resolveImportPath\<close> for an importing file and a specifier depends
  on the environment only through the working directory and the existence of the eight
  candidates: two environments that agree on these give the same result, whatever else
  differs between them.
\<close>

theorem resolveImportPath_deterministic:
  assumes "cwd e1 = cwd e2"
    and "\<forall>p\<in>set (possibilities (fullPath e1 fromFile importPath)). existsSync e1 p = existsSync e2 p"
  shows "resolveImportPath e1 fromFile importPath = resolveImportPath e2 fromFile importPath"
proof -
  have "first_existing ex1 ps = first_existing ex2 ps" if "\<forall>p\<in>set ps. ex1 p = ex2 p"
    for ex1 ex2 :: "string \<Rightarrow> bool" and ps
    using that by (induction ps) simp_all
  with assms show ?thesis
    by (simp add: resolveImportPath_def fullPath_def)
qed

theorem resolveImportPath_deterministic_witness:
  "cwd sampleEnv = cwd otherEnv \<and>
   existsSync otherEnv ''/elsewhere.js'' \<and> \<not> existsSync sampleEnv ''/elsewhere.js'' \<and>
   resolveImportPath sampleEnv (inRoot ''/a.ts'') ''./b'' =
     resolveImportPath otherEnv (inRoot ''/a.ts'') ''./b''"
proof -
  have wd: "cwd sampleEnv = cwd otherEnv"
    by (simp add: otherEnv_def)
  have same: "\<forall>p\<in>set (possibilities (fullPath sampleEnv (inRoot ''/a.ts'') ''./b'')).
      existsSync sampleEnv p = existsSync otherEnv p"
    unfolding sample_fullPath possibilities_def sample_join
    by (simp add: otherEnv_def inRoot_def projectRoot_def)
  have differ: "existsSync otherEnv ''/elsewhere.js'' \<and> \<not> existsSync sampleEnv ''/elsewhere.js''"
    by (simp add: otherEnv_def sample_exists inRoot_def projectRoot_def)
  from resolveImportPath_deterministic [OF wd same] wd differ show ?thesis by simp
qed

subsection \<open>C10: the flags agree with the hook names\<close>

text \<open>
  C10: in the record of every classified file, \<open>usesState\<close>, \<open>usesEffect\<close> and
  \<open>usesContext\<close> hold exactly when \<open>usesHooks\<close> contains \<open>useState\<close>,
  \<open>useEffect\<close> and \<open>useContext\<close>.
\<close>

theorem flags_agree_with_hookNames:
  assumes "parseFile e filePath = Inr m"
  shows "(usesState m = (''useState'' \<in> set (usesHooks m))) \<and>
         (usesEffect m = (''useEffect'' \<in> set (usesHooks m))) \<and>
         (usesContext m = (''useContext'' \<in> set (usesHooks m)))"
proof -
  obtain code ast where "m = visitNodes e filePath ast (initialMetadata e filePath code)"
    using parseFile_InrD [OF assms] by blast
  then have "flagsAgree m" by (simp add: visitNodes_flagsAgree)
  then show ?thesis by (simp add: flagsAgree_def)
qed

theorem flags_agree_with_hookNames_witness:
  "\<exists>m. parseFile sampleEnv (inRoot ''/counter.tsx'') = Inr m \<and>
       usesState m \<and> ''useState'' \<in> set (usesHooks m) \<and>
       \<not> usesEffect m \<and> ''useEffect'' \<notin> set (usesHooks m) \<and>
       \<not> usesContext m \<and> ''useContext'' \<notin> set (usesHooks m)"
  using flags_agree_with_hookNames [OF sample_parseFile(3)] by (simp add: sample_parseFile)

end
